theory Spec2Isabelle
  imports Complex_Main
begin

section \<open>The GLM-HMM fitting engine of glmhmm/glm\_hmm.py\<close>

text \<open>
  Conventions of the embedding.
  \<^item> A numpy float is idealised as a \<open>real\<close>: rounding, infinities and the NaN that an
    arithmetic operation may produce are outside the model. The NaN that \<open>fit\<close> writes
    into its trace on purpose is modelled (\<open>None\<close> in a \<open>real option\<close>).
  \<^item> A one-dimensional array is a list, a matrix is the list of its rows, a
    three-dimensional array is the list of its matrices. The shape of an array with no
    rows is not represented.
  \<^item> Every exception the code can raise is a value \<open>Inl e\<close> of a sum type.
  \<^item> The dimensions \<open>n\<close>, \<open>d\<close>, \<open>c\<close>, \<open>k\<close> stored by the constructor are natural numbers.
\<close>

subsection \<open>Exceptions\<close>

datatype error = ValueError | IndexError | ZeroDivisionError

definition ebind :: "error + 'a \<Rightarrow> ('a \<Rightarrow> error + 'b) \<Rightarrow> error + 'b" where
  "ebind m f = (case m of Inl e \<Rightarrow> Inl e | Inr v \<Rightarrow> f v)"

fun sequence_err :: "(error + 'a) list \<Rightarrow> error + 'a list" where
  "sequence_err [] = Inr []"
| "sequence_err (m # ms) =
     (case m of
        Inl e \<Rightarrow> Inl e
      | Inr v \<Rightarrow> (case sequence_err ms of Inl e \<Rightarrow> Inl e | Inr vs \<Rightarrow> Inr (v # vs)))"

subsection \<open>Python and numpy primitives\<close>

type_synonym vec = "real list"
type_synonym matrix = "real list list"
type_synonym tensor = "real list list list"

text \<open>The bound of a slice: a negative bound counts from the end, and both are clamped.\<close>

definition slice_bound :: "nat \<Rightarrow> int \<Rightarrow> nat" where
  "slice_bound len i = (if i < 0 then nat (max 0 (i + int len)) else min (nat i) len)"

definition py_slice :: "int \<Rightarrow> int \<Rightarrow> 'a list \<Rightarrow> 'a list" where
  "py_slice a b xs =
     (let lo = slice_bound (length xs) a; hi = slice_bound (length xs) b
      in take (hi - lo) (drop lo xs))"

text \<open>Indexing with one integer: a negative index counts from the end, out of range raises.\<close>

definition py_index :: "'a list \<Rightarrow> int \<Rightarrow> error + 'a" where
  "py_index xs i =
     (let len = int (length xs); j = (if i < 0 then i + len else i)
      in if 0 \<le> j \<and> j < len then Inr (xs ! nat j) else Inl IndexError)"

text \<open>\<open>int(v)\<close> of a float truncates towards zero.\<close>

definition py_int :: "real \<Rightarrow> int" where
  "py_int v = (if 0 \<le> v then \<lfloor>v\<rfloor> else \<lceil>v\<rceil>)"

text \<open>\<open>chunks r m xs\<close> cuts the first \<open>r * m\<close> elements of \<open>xs\<close> into \<open>r\<close> rows of \<open>m\<close>.\<close>

fun chunks :: "nat \<Rightarrow> nat \<Rightarrow> 'a list \<Rightarrow> 'a list list" where
  "chunks 0 m xs = []"
| "chunks (Suc r) m xs = take m xs # chunks r m (drop m xs)"

text \<open>
  \<open>reshape(v, (r, m))\<close> of a flat array, where only the last dimension can be negative
  (it is \<open>k - 1\<close> or \<open>c - 1\<close> in the code): a negative dimension is inferred from the
  size, which fails when the known dimensions multiply to zero or do not divide the size;
  otherwise the sizes must agree.
\<close>

definition last_dim :: "nat \<Rightarrow> nat \<Rightarrow> int \<Rightarrow> error + nat" where
  "last_dim sz known m =
     (if m < 0 then
        (if known = 0 \<or> sz mod known \<noteq> 0 then Inl ValueError else Inr (sz div known))
      else if known * nat m = sz then Inr (nat m) else Inl ValueError)"

definition reshape2 :: "nat \<Rightarrow> int \<Rightarrow> 'a list \<Rightarrow> error + 'a list list" where
  "reshape2 r m xs = ebind (last_dim (length xs) r m) (\<lambda>m'. Inr (chunks r m' xs))"

definition reshape3 :: "nat \<Rightarrow> nat \<Rightarrow> int \<Rightarrow> 'a list \<Rightarrow> error + 'a list list list" where
  "reshape3 r s m xs =
     ebind (last_dim (length xs) (r * s) m)
       (\<lambda>m'. Inr (map (chunks s m') (chunks r (s * m') xs)))"

text \<open>\<open>x @ w\<close> for a matrix \<open>x\<close> and a matrix \<open>w\<close> with \<open>d\<close> rows and \<open>m\<close> columns.\<close>

definition dot :: "vec \<Rightarrow> vec \<Rightarrow> real" where
  "dot u v = sum_list (map2 (*) u v)"

definition column :: "matrix \<Rightarrow> nat \<Rightarrow> vec" where
  "column w j = map (\<lambda>row. row ! j) w"

definition matmul :: "matrix \<Rightarrow> nat \<Rightarrow> nat \<Rightarrow> matrix \<Rightarrow> error + matrix" where
  "matmul x d m w =
     (if \<forall>row \<in> set x. length row = d
      then Inr (map (\<lambda>row. map (\<lambda>j. dot row (column w j)) [0..<m]) x)
      else Inl ValueError)"

text \<open>\<open>np.dot(v, A)\<close> for a vector \<open>v\<close> and a square matrix \<open>A\<close> of \<open>k\<close> rows.\<close>

definition vecmat :: "nat \<Rightarrow> vec \<Rightarrow> matrix \<Rightarrow> vec" where
  "vecmat k v A = map (\<lambda>j. dot v (column A j)) [0..<k]"

subsection \<open>The model object\<close>

text \<open>
  The fields of a \<open>GLMHMM\<close> instance that the code of this file reads: the dimensions
  set by the constructor (\<open>self.n\<close> time steps, \<open>self.d\<close> inputs, \<open>self.c\<close> categories,
  \<open>self.k\<close> states), the flag \<open>hessian\<close> and \<open>gaussianPrior\<close>.
\<close>

record glmhmm =
  dim_n :: nat
  dim_d :: nat
  dim_c :: nat
  dim_k :: nat
  hessian :: bool
  gaussianPrior :: int
  obj_w :: tensor
  obj_phi :: tensor
  obj_pi0 :: "vec option"

subsection \<open>computeVariance: the flat parameter vector and the objective\<close>

text \<open>
  Lines 298 to 300: \<open>A[:,0:k-1].flatten()\<close>, \<open>w.flatten()\<close> and their concatenation.
\<close>

definition A_flat :: "glmhmm \<Rightarrow> matrix \<Rightarrow> vec" where
  "A_flat m A = concat (map (py_slice 0 (int (dim_k m) - 1)) A)"

definition w_flat :: "tensor \<Rightarrow> vec" where
  "w_flat w = concat (concat w)"

definition params_flat :: "glmhmm \<Rightarrow> matrix \<Rightarrow> tensor \<Rightarrow> vec" where
  "params_flat m A w = A_flat m A @ w_flat w"

text \<open>Lines 258 to 261: the transition matrix rebuilt from the flat vector.\<close>

definition unflatten_A :: "glmhmm \<Rightarrow> vec \<Rightarrow> error + matrix" where
  "unflatten_A m ps =
     ebind (reshape2 (dim_k m) (int (dim_k m) - 1) (take (dim_k m * (dim_k m - 1)) ps))
       (\<lambda>A. Inr (map (\<lambda>row. row @ [1 - sum_list row]) A))"

text \<open>Lines 264 and 265: the weights rebuilt from the rest of the flat vector.\<close>

definition unflatten_w :: "glmhmm \<Rightarrow> vec \<Rightarrow> error + tensor" where
  "unflatten_w m ps = reshape3 (dim_k m) (dim_d m) (int (dim_c m) - 1) (drop (dim_k m * (dim_k m - 1)) ps)"

text \<open>
  Lines 269 to 276: the emission probabilities of every state, a softmax with the last
  category as the reference.
\<close>

definition softmax_rows :: "matrix \<Rightarrow> matrix" where
  "softmax_rows p = map (\<lambda>row. map (\<lambda>v. v / sum_list row) row) p"

definition state_phi :: "glmhmm \<Rightarrow> matrix \<Rightarrow> matrix \<Rightarrow> error + matrix" where
  "state_phi m x w_zi =
     ebind (last_dim (length (concat w_zi)) (dim_d m) (int (dim_c m) - 1))
       (\<lambda>m'. let w_new = chunks (dim_d m) m' (concat w_zi)
             in ebind (matmul x (dim_d m) m' w_new)
                  (\<lambda>xw. Inr (softmax_rows (map (\<lambda>row. map exp row @ [1]) xw))))"

definition all_phi :: "glmhmm \<Rightarrow> matrix \<Rightarrow> tensor \<Rightarrow> error + tensor" where
  "all_phi m x w = sequence_err (map (state_phi m x) w)"

text \<open>\<open>phi[:,i,int(y[i])]\<close>: the probability each state gives to the observation at \<open>i\<close>.\<close>

definition obs_column :: "tensor \<Rightarrow> vec \<Rightarrow> nat \<Rightarrow> error + vec" where
  "obs_column phi y i =
     (if length y \<le> i then Inl IndexError
      else sequence_err
        (map (\<lambda>p. if length p \<le> i then Inl IndexError else py_index (p ! i) (py_int (y ! i)))
           phi))"

text \<open>
  Lines 287 to 291: the forward recursion over the time bins \<open>1, ..., n - 1\<close>. The list
  \<open>cs\<close> collects the normalisers in order; \<open>aa\<close> is the last forward vector.
\<close>

fun forward_loop :: "nat \<Rightarrow> matrix \<Rightarrow> tensor \<Rightarrow> vec \<Rightarrow> nat list \<Rightarrow> vec \<Rightarrow> vec \<Rightarrow> error + vec" where
  "forward_loop kk A phi y [] aa cs = Inr cs"
| "forward_loop kk A phi y (i # is) aa cs =
     (case obs_column phi y i of
        Inl e \<Rightarrow> Inl e
      | Inr col \<Rightarrow>
          (let aaprior = vecmat kk aa A;
               pxz = map2 (*) col aaprior;
               ci = sum_list pxz
           in forward_loop kk A phi y is (map (\<lambda>v. v / ci) pxz) (cs @ [ci])))"

definition forward_cs :: "glmhmm \<Rightarrow> matrix \<Rightarrow> tensor \<Rightarrow> vec \<Rightarrow> error + vec" where
  "forward_cs m A phi y =
     ebind (obs_column phi y 0)
       (\<lambda>pxz. let c0 = sum_list pxz
              in forward_loop (dim_k m) A phi y [1..<dim_n m] (map (\<lambda>v. v / c0) pxz) [c0])"

text \<open>
  Line 295: the value returned, \<open>-sum(log(cs)) + (1/(2*(gaussPrior**2)) * sum(w ** 2))\<close>.
  \<open>gaussPrior\<close> is an integer, so the quotient is Python's division of two integers,
  which raises when the divisor is zero.
\<close>

definition py_truediv :: "int \<Rightarrow> int \<Rightarrow> error + real" where
  "py_truediv a b = (if b = 0 then Inl ZeroDivisionError else Inr (real_of_int a / real_of_int b))"

definition objective :: "vec \<Rightarrow> tensor \<Rightarrow> int \<Rightarrow> error + real" where
  "objective cs w gaussPrior =
     (let nll = - sum_list (map ln cs)
      in ebind (py_truediv 1 (2 * gaussPrior ^ 2))
           (\<lambda>q. Inr (nll + q * sum_list (map (\<lambda>v. v ^ 2) (w_flat w)))))"

definition logLikelihood :: "glmhmm \<Rightarrow> int \<Rightarrow> vec \<Rightarrow> vec \<Rightarrow> matrix \<Rightarrow> error + real" where
  "logLikelihood m gaussPrior ps y x =
     ebind (unflatten_A m ps)
       (\<lambda>A. ebind (unflatten_w m ps)
          (\<lambda>w. ebind (all_phi m x w)
             (\<lambda>phi. ebind (forward_cs m A phi y)
                (\<lambda>cs. objective cs w gaussPrior))))"

text \<open>
  The objective at the fitted point, which is what the Hessian is taken of (lines 303 to
  306). The automatic differentiation and the inversion of the Hessian are not modelled.
\<close>

definition computeVariance_objective ::
  "glmhmm \<Rightarrow> matrix \<Rightarrow> vec \<Rightarrow> matrix \<Rightarrow> tensor \<Rightarrow> int \<Rightarrow> error + real" where
  "computeVariance_objective m x y A w gaussPrior =
     logLikelihood m gaussPrior (params_flat m A w) y x"

subsection \<open>The collaborators of fit\<close>

text \<open>
  \<open>fit\<close> calls methods that this file does not define: \<open>forwardPass\<close>, \<open>backwardPass\<close>,
  \<open>_updateTransitions\<close> and \<open>_updateInitStates\<close> of the base class \<open>HMM\<close>, \<open>glm.fit\<close> and
  \<open>glm.observations.compObs\<close>. They are parameters of the model: functions of their
  arguments that return a value or raise, and that leave the fields of the object alone.
\<close>

record collab =
  compObs :: "vec \<Rightarrow> matrix \<Rightarrow> error + vec"
  forwardPass :: "vec \<Rightarrow> matrix \<Rightarrow> tensor \<Rightarrow> vec option \<Rightarrow> error + real \<times> matrix \<times> vec"
  backwardPass :: "vec \<Rightarrow> matrix \<Rightarrow> tensor \<Rightarrow> matrix \<Rightarrow> vec \<Rightarrow> error + matrix \<times> matrix \<times> vec"
  updateTransitions :: "vec \<Rightarrow> matrix \<Rightarrow> matrix \<Rightarrow> vec \<Rightarrow> matrix \<Rightarrow> tensor \<Rightarrow> error + matrix"
  updateInitStates :: "matrix \<Rightarrow> error + vec"
  glm_fit :: "matrix \<Rightarrow> matrix \<Rightarrow> matrix \<Rightarrow> bool \<Rightarrow> vec \<Rightarrow> int \<Rightarrow> error + matrix \<times> matrix"

subsection \<open>Assignment to a slice\<close>

text \<open>
  \<open>arr[a:b] = v\<close> replaces the rows of the slice by \<open>v\<close>. numpy broadcasts \<open>v\<close> to the
  shape of the slice: along an axis, \<open>v\<close> has the length of the slice or length one (and
  is repeated); anything else raises.
\<close>

definition broadcast_vec :: "nat \<Rightarrow> 'a list \<Rightarrow> error + 'a list" where
  "broadcast_vec len v =
     (if length v = len then Inr v
      else if length v = 1 then Inr (replicate len (v ! 0))
      else Inl ValueError)"

definition broadcast_rows :: "nat \<Rightarrow> nat \<Rightarrow> 'a list list \<Rightarrow> error + 'a list list" where
  "broadcast_rows len width v =
     ebind (broadcast_vec len v) (\<lambda>rows. sequence_err (map (broadcast_vec width) rows))"

definition splice :: "nat \<Rightarrow> nat \<Rightarrow> 'a list \<Rightarrow> 'a list \<Rightarrow> 'a list" where
  "splice lo len v arr = take lo arr @ v @ drop (lo + len) arr"

definition assign_vec :: "int \<Rightarrow> int \<Rightarrow> 'a list \<Rightarrow> 'a list \<Rightarrow> error + 'a list" where
  "assign_vec a b v arr =
     (let lo = slice_bound (length arr) a; hi = slice_bound (length arr) b
      in ebind (broadcast_vec (hi - lo) v) (\<lambda>v'. Inr (splice lo (hi - lo) v' arr)))"

definition assign_mat :: "nat \<Rightarrow> int \<Rightarrow> int \<Rightarrow> 'a list list \<Rightarrow> 'a list list \<Rightarrow> error + 'a list list" where
  "assign_mat width a b v arr =
     (let lo = slice_bound (length arr) a; hi = slice_bound (length arr) b
      in ebind (broadcast_rows (hi - lo) width v) (\<lambda>v'. Inr (splice lo (hi - lo) v' arr)))"

text \<open>
  \<open>p ** B\<close> on finite values: a power with an integer exponent, and \<open>exp (B * ln p)\<close>
  for a non-negative \<open>p\<close> otherwise.
\<close>

definition np_power :: "real \<Rightarrow> real \<Rightarrow> real" where
  "np_power p B = (if B = of_int \<lfloor>B\<rfloor> then p powi \<lfloor>B\<rfloor> else p powr B)"

subsection \<open>fit: the initial emission probabilities\<close>

text \<open>Lines 191 to 194: \<open>phi[i,zi,:] = compObs(x[i,:], w[zi,:,:])\<close> for every \<open>i\<close> and \<open>zi\<close>.\<close>

definition init_phi :: "collab \<Rightarrow> glmhmm \<Rightarrow> matrix \<Rightarrow> tensor \<Rightarrow> error + tensor" where
  "init_phi co m x w =
     sequence_err (map (\<lambda>i.
       sequence_err (map (\<lambda>zi.
         if length x \<le> i \<or> length w \<le> zi then Inl IndexError
         else ebind (compObs co (x ! i) (w ! zi)) (broadcast_vec (dim_c m)))
       [0..<dim_k m]))
     [0..<dim_n m])"

subsection \<open>fit: the E-step over the sessions\<close>

record estep_out =
  es_ll :: real
  es_alpha :: matrix
  es_beta :: matrix
  es_cs :: vec
  es_pBack :: matrix
  es_zhatBack :: vec

text \<open>
  Lines 210 and 211: the two passes of session \<open>s\<close>, on the slices
  \<open>y[sess[s]:sess[s+1]]\<close> and \<open>phi[sess[s]:sess[s+1],:,:]\<close>.
\<close>

definition session_forward ::
  "collab \<Rightarrow> vec \<Rightarrow> matrix \<Rightarrow> tensor \<Rightarrow> vec option \<Rightarrow> int list \<Rightarrow> nat
     \<Rightarrow> error + real \<times> matrix \<times> vec" where
  "session_forward co y A phi pi0 sess s =
     forwardPass co (py_slice (sess ! s) (sess ! (s + 1)) y) A
       (py_slice (sess ! s) (sess ! (s + 1)) phi) pi0"

definition session_backward ::
  "collab \<Rightarrow> vec \<Rightarrow> matrix \<Rightarrow> tensor \<Rightarrow> int list \<Rightarrow> nat \<Rightarrow> matrix \<Rightarrow> vec
     \<Rightarrow> error + matrix \<times> matrix \<times> vec" where
  "session_backward co y A phi sess s alpha_s cs_s =
     backwardPass co (py_slice (sess ! s) (sess ! (s + 1)) y) A
       (py_slice (sess ! s) (sess ! (s + 1)) phi) alpha_s cs_s"

text \<open>Lines 210 to 219: the body of the loop over the sessions, for session \<open>s\<close>.\<close>

definition session_step ::
  "collab \<Rightarrow> glmhmm \<Rightarrow> vec \<Rightarrow> matrix \<Rightarrow> tensor \<Rightarrow> vec option \<Rightarrow> int list \<Rightarrow> real \<Rightarrow> nat
     \<Rightarrow> estep_out \<Rightarrow> error + estep_out" where
  "session_step co m y A phi pi0 sess B s acc =
     (let a = sess ! s; b = sess ! (s + 1)
      in ebind (session_forward co y A phi pi0 sess s) (\<lambda>(ll_s, alpha_s, cs_s).
         ebind (session_backward co y A phi sess s alpha_s cs_s) (\<lambda>(pBack_s, beta_s, zhatBack_s).
         ebind (assign_mat (dim_k m) a b alpha_s (es_alpha acc)) (\<lambda>alpha'.
         ebind (assign_vec a b cs_s (es_cs acc)) (\<lambda>cs'.
         ebind (assign_mat (dim_k m) a b (map (map (\<lambda>p. np_power p B)) pBack_s) (es_pBack acc))
           (\<lambda>pBack'.
         ebind (assign_mat (dim_k m) a b beta_s (es_beta acc)) (\<lambda>beta'.
         ebind (assign_vec a b zhatBack_s (es_zhatBack acc)) (\<lambda>zhatBack'.
           Inr \<lparr>es_ll = es_ll acc + ll_s, es_alpha = alpha', es_beta = beta', es_cs = cs',
                es_pBack = pBack', es_zhatBack = zhatBack'\<rparr>))))))))"

fun estep_loop ::
  "collab \<Rightarrow> glmhmm \<Rightarrow> vec \<Rightarrow> matrix \<Rightarrow> tensor \<Rightarrow> vec option \<Rightarrow> int list \<Rightarrow> real \<Rightarrow> nat list
     \<Rightarrow> estep_out \<Rightarrow> error + estep_out" where
  "estep_loop co m y A phi pi0 sess B [] acc = Inr acc"
| "estep_loop co m y A phi pi0 sess B (s # ss) acc =
     (case session_step co m y A phi pi0 sess B s acc of
        Inl e \<Rightarrow> Inl e
      | Inr acc' \<Rightarrow> estep_loop co m y A phi pi0 sess B ss acc')"

text \<open>Lines 202 to 219: the arrays start as zeros and the sessions fill them in order.\<close>

definition estep_init :: "glmhmm \<Rightarrow> estep_out" where
  "estep_init m =
     \<lparr>es_ll = 0,
      es_alpha = replicate (dim_n m) (replicate (dim_k m) 0),
      es_beta = replicate (dim_n m) (replicate (dim_k m) 0),
      es_cs = replicate (dim_n m) 0,
      es_pBack = replicate (dim_n m) (replicate (dim_k m) 0),
      es_zhatBack = replicate (dim_n m) 0\<rparr>"

definition estep ::
  "collab \<Rightarrow> glmhmm \<Rightarrow> vec \<Rightarrow> matrix \<Rightarrow> tensor \<Rightarrow> vec option \<Rightarrow> int list \<Rightarrow> real
     \<Rightarrow> error + estep_out" where
  "estep co m y A phi pi0 sess B =
     estep_loop co m y A phi pi0 sess B [0..<length sess - 1] (estep_init m)"

subsection \<open>fit: the M-step\<close>

text \<open>
  Line 118, \<open>y.astype(int)\<close>: the cast of a float to a 64-bit integer truncates towards
  zero; a value outside of the range of the type gives the smallest integer of the type
  (what the conversion instruction of x86-64 returns).
\<close>

definition astype_int :: "real \<Rightarrow> int" where
  "astype_int v =
     (let t = py_int v in if - (2 ^ 63) \<le> t \<and> t < 2 ^ 63 then t else - (2 ^ 63))"

text \<open>The sum of two 64-bit integers wraps around.\<close>

definition add_int64 :: "int \<Rightarrow> int \<Rightarrow> int" where
  "add_int64 a b = (a + b + 2 ^ 63) mod 2 ^ 64 - 2 ^ 63"

text \<open>
  Lines 118 to 120 of \<open>_updateObservations\<close>: the observations as a one-hot matrix with
  \<open>max(y) + 1\<close> columns. \<open>max\<close> of an empty array raises, and so does a negative number
  of columns and an index outside of the row. The memory that the matrix takes is not
  modelled.
\<close>

definition set_one :: "nat \<Rightarrow> int \<Rightarrow> error + vec" where
  "set_one cols j =
     (let j' = (if j < 0 then j + int cols else j)
      in if 0 \<le> j' \<and> j' < int cols then Inr ((replicate cols 0)[nat j' := 1])
         else Inl IndexError)"

definition one_hot :: "vec \<Rightarrow> error + matrix" where
  "one_hot y =
     (let yint = map astype_int y
      in if yint = [] then Inl ValueError
         else let cols = add_int64 (Max (set yint)) 1
              in if cols < 0 then Inl ValueError
                 else sequence_err (map (set_one (nat cols)) yint))"

text \<open>\<open>self.phi[:,zk,:] = v\<close>: at every time step, the row of state \<open>zk\<close> is replaced.\<close>

definition set_state :: "nat \<Rightarrow> matrix \<Rightarrow> tensor \<Rightarrow> tensor" where
  "set_state zk v phi = map2 (\<lambda>p row. p[zk := row]) phi v"

text \<open>
  Line 125, for the states \<open>zk\<close> in order: \<open>glm.fit\<close> gets the weights of the state from
  the argument \<open>w\<close> and the column \<open>gammas[:,zk]\<close>; its two results are assigned to
  \<open>self.w[zk,:,:]\<close> and \<open>self.phi[:,zk,:]\<close>. When \<open>w\<close> is \<open>self.w\<close> itself (every
  iteration but the first), row \<open>zk\<close> is read before it is written, so reading the
  argument as it was on entry is the same.
\<close>

fun obs_loop ::
  "collab \<Rightarrow> matrix \<Rightarrow> tensor \<Rightarrow> matrix \<Rightarrow> matrix \<Rightarrow> nat list \<Rightarrow> glmhmm \<Rightarrow> error + glmhmm" where
  "obs_loop co x w yy gammas [] m = Inr m"
| "obs_loop co x w yy gammas (zk # zks) m =
     (if length w \<le> zk then Inl IndexError
      else ebind (glm_fit co x (w ! zk) yy (hessian m) (column gammas zk) (gaussianPrior m))
        (\<lambda>(w_new, phi_new).
           if length (obj_w m) \<le> zk then Inl IndexError
           else ebind (broadcast_rows (dim_d m) (dim_c m) w_new) (\<lambda>w_zk.
                ebind (broadcast_rows (dim_n m) (dim_c m) phi_new) (\<lambda>phi_zk.
                  obs_loop co x w yy gammas zks
                    (m\<lparr>obj_w := (obj_w m)[zk := w_zk],
                       obj_phi := set_state zk phi_zk (obj_phi m)\<rparr>)))))"

text \<open>\<open>_updateObservations\<close>; its results \<open>self.w\<close> and \<open>self.phi\<close> are read off the object.\<close>

definition updateObservations ::
  "collab \<Rightarrow> glmhmm \<Rightarrow> vec \<Rightarrow> matrix \<Rightarrow> tensor \<Rightarrow> matrix \<Rightarrow> error + glmhmm" where
  "updateObservations co m y x w gammas =
     ebind (one_hot y)
       (\<lambda>yy. obs_loop co x w yy gammas [0..<dim_k m]
          (m\<lparr>obj_phi := replicate (dim_n m) (replicate (dim_k m) (replicate (dim_c m) 0))\<rparr>))"

text \<open>
  \<open>_updateParams\<close>: the new \<open>A\<close>, \<open>w\<close>, \<open>phi\<close> and \<open>self.pi0\<close>, and the object. The
  initial distribution is assigned only under \<open>fit_init_states\<close>.
\<close>

definition updateParams ::
  "collab \<Rightarrow> glmhmm \<Rightarrow> vec \<Rightarrow> matrix \<Rightarrow> matrix \<Rightarrow> matrix \<Rightarrow> matrix \<Rightarrow> vec \<Rightarrow> matrix \<Rightarrow> tensor
     \<Rightarrow> tensor \<Rightarrow> bool \<Rightarrow> error + matrix \<times> tensor \<times> tensor \<times> vec option \<times> glmhmm" where
  "updateParams co m y x gammas beta alpha cs A phi w fit_init_states =
     ebind (updateTransitions co y alpha beta cs A phi) (\<lambda>A'.
     ebind (updateObservations co m y x w gammas) (\<lambda>m'.
     ebind (if fit_init_states
            then ebind (updateInitStates co gammas) (\<lambda>p. Inr (m'\<lparr>obj_pi0 := Some p\<rparr>))
            else Inr m') (\<lambda>m''.
       Inr (A', obj_w m'', obj_phi m'', obj_pi0 m'', m''))))"

subsection \<open>fit: the EM loop\<close>

text \<open>
  The variables that the loop of \<open>fit\<close> carries from one iteration to the next: the
  trace \<open>lls\<close> (an entry is \<open>None\<close> while it holds NaN), \<open>A\<close>, \<open>w\<close>, \<open>phi\<close>, \<open>pi0\<close>
  and the object.
\<close>

record fit_state =
  st_lls :: "real option list"
  st_A :: matrix
  st_w :: tensor
  st_phi :: tensor
  st_pi0 :: "vec option"
  st_self :: glmhmm

text \<open>
  Lines 201 to 229: one iteration with index \<open>i\<close>, up to the convergence check. It
  returns \<open>ll\<close> with the new state.
\<close>

definition em_iteration ::
  "collab \<Rightarrow> vec \<Rightarrow> matrix \<Rightarrow> bool \<Rightarrow> int list \<Rightarrow> real \<Rightarrow> nat \<Rightarrow> fit_state
     \<Rightarrow> error + real \<times> fit_state" where
  "em_iteration co y x fit_init_states sess B i st =
     ebind (estep co (st_self st) y (st_A st) (st_phi st) (st_pi0 st) sess B) (\<lambda>e.
       let ll = es_ll e;
           lls1 = (st_lls st)[i := Some ll]
       in ebind (updateParams co (st_self st) y x (es_pBack e) (es_beta e) (es_alpha e) (es_cs e)
                   (st_A st) (st_phi st) (st_w st) fit_init_states)
            (\<lambda>(A', w', phi', pi0', m').
               Inr (ll, \<lparr>st_lls = lls1[i := Some ll], st_A = A', st_w = w', st_phi = phi',
                         st_pi0 = pi0', st_self = m'\<rparr>)))"

text \<open>
  Line 230: \<open>n > 5 and lls[n-5] + tol >= ll\<close>. A comparison with NaN is false.
\<close>

definition tolerance_reached :: "real \<Rightarrow> real option list \<Rightarrow> nat \<Rightarrow> real \<Rightarrow> bool" where
  "tolerance_reached tol lls i ll =
     (5 < i \<and> (case lls ! (i - 5) of None \<Rightarrow> False | Some v \<Rightarrow> ll \<le> v + tol))"

text \<open>Lines 199 to 231: the loop \<open>for n in range(maxiter)\<close> from index \<open>i\<close> on.\<close>

function fit_loop ::
  "collab \<Rightarrow> vec \<Rightarrow> matrix \<Rightarrow> bool \<Rightarrow> nat \<Rightarrow> real \<Rightarrow> int list \<Rightarrow> real \<Rightarrow> nat \<Rightarrow> fit_state
     \<Rightarrow> error + fit_state" where
  "fit_loop co y x fit_init_states maxiter tol sess B i st =
     (if maxiter \<le> i then Inr st
      else case em_iteration co y x fit_init_states sess B i st of
             Inl e \<Rightarrow> Inl e
           | Inr (ll, st') \<Rightarrow>
               if tolerance_reached tol (st_lls st') i ll then Inr st'
               else fit_loop co y x fit_init_states maxiter tol sess B (Suc i) st')"
  by pat_completeness auto
termination
  by (relation "measure (\<lambda>(co, y, x, fit_init_states, maxiter, tol, sess, B, i, st). maxiter - i)")
     auto

text \<open>
  What \<open>fit\<close> returns, \<open>lls, A, w, pi0\<close>, with the object as the call leaves it and the
  warnings the call issued. \<open>fit\<close> has no statement that issues a warning, so the list
  it builds is empty.
\<close>

datatype warning = NonConvergedWarning

record fit_result =
  res_lls :: "real option list"
  res_A :: matrix
  res_w :: tensor
  res_pi0 :: "vec option"
  res_self :: glmhmm
  res_warnings :: "warning list"

text \<open>
  Lines 184 to 194: the state on entry to the loop. The trace is NaN everywhere,
  \<open>self.pi0\<close> is the argument \<open>pi0\<close>, and \<open>phi\<close> comes from the initial weights.
\<close>

definition fit_start ::
  "collab \<Rightarrow> glmhmm \<Rightarrow> matrix \<Rightarrow> matrix \<Rightarrow> tensor \<Rightarrow> vec option \<Rightarrow> nat \<Rightarrow> error + fit_state" where
  "fit_start co m x A w pi0 maxiter =
     (let m1 = m\<lparr>obj_pi0 := pi0\<rparr>
      in ebind (init_phi co m1 x w)
           (\<lambda>phi. Inr \<lparr>st_lls = replicate maxiter None, st_A = A, st_w = w, st_phi = phi,
                        st_pi0 = pi0, st_self = m1\<rparr>))"

text \<open>Lines 196 and 197: \<open>sess = None\<close> stands for the one session \<open>[0, self.n]\<close>.\<close>

definition fit_sess :: "glmhmm \<Rightarrow> int list option \<Rightarrow> int list" where
  "fit_sess m sess = (case sess of None \<Rightarrow> [0, int (dim_n m)] | Some s \<Rightarrow> s)"

text \<open>Line 233: the tuple returned.\<close>

definition fit_return :: "fit_state \<Rightarrow> fit_result" where
  "fit_return st =
     \<lparr>res_lls = st_lls st, res_A = st_A st, res_w = st_w st, res_pi0 = st_pi0 st,
      res_self = st_self st, res_warnings = []\<rparr>"

text \<open>\<open>fit\<close>, lines 184 to 233. \<open>np.empty(maxiter)\<close> raises for a negative \<open>maxiter\<close>.\<close>

definition fit ::
  "collab \<Rightarrow> glmhmm \<Rightarrow> vec \<Rightarrow> matrix \<Rightarrow> matrix \<Rightarrow> tensor \<Rightarrow> vec option \<Rightarrow> bool \<Rightarrow> int \<Rightarrow> real
     \<Rightarrow> int list option \<Rightarrow> real \<Rightarrow> error + fit_result" where
  "fit co m y x A w pi0 fit_init_states maxiter tol sess B =
     (if maxiter < 0 then Inl ValueError
      else ebind (fit_start co m x A w pi0 (nat maxiter)) (\<lambda>st0.
           ebind (fit_loop co y x fit_init_states (nat maxiter) tol (fit_sess m sess) B 0 st0)
             (\<lambda>st. Inr (fit_return st))))"

subsection \<open>Notions used to state the properties of fit\<close>

text \<open>
  \<open>run_iters ... i cnt st\<close> runs the body of the loop \<open>cnt\<close> times from index \<open>i\<close> with no
  convergence check: the state after exactly \<open>cnt\<close> more iterations.
\<close>

fun run_iters ::
  "collab \<Rightarrow> vec \<Rightarrow> matrix \<Rightarrow> bool \<Rightarrow> int list \<Rightarrow> real \<Rightarrow> nat \<Rightarrow> nat \<Rightarrow> fit_state
     \<Rightarrow> error + fit_state" where
  "run_iters co y x fit_init_states sess B i 0 st = Inr st"
| "run_iters co y x fit_init_states sess B i (Suc cnt) st =
     (case em_iteration co y x fit_init_states sess B i st of
        Inl e \<Rightarrow> Inl e
      | Inr (ll, st') \<Rightarrow> run_iters co y x fit_init_states sess B (Suc i) cnt st')"

text \<open>
  The lagged rule read off a trace: at index \<open>j > 5\<close>, the entry five places earlier plus
  the tolerance reaches the entry at \<open>j\<close>.
\<close>

definition lagged_rule :: "real \<Rightarrow> real option list \<Rightarrow> nat \<Rightarrow> bool" where
  "lagged_rule tol lls j =
     (5 < j \<and>
      (case lls ! (j - 5) of
         None \<Rightarrow> False
       | Some v \<Rightarrow> (case lls ! j of None \<Rightarrow> False | Some ll \<Rightarrow> ll \<le> v + tol)))"

text \<open>
  Session boundaries that are in order and within \<open>[0, len]\<close>, as the data model asks
  of them.
\<close>

definition sessions_ok :: "nat \<Rightarrow> int list \<Rightarrow> bool" where
  "sessions_ok len sess = (sorted sess \<and> (\<forall>v \<in> set sess. 0 \<le> v \<and> v \<le> int len))"

text \<open>The five arrays of the E-step have \<open>len\<close> rows.\<close>

definition lens_ok :: "nat \<Rightarrow> estep_out \<Rightarrow> bool" where
  "lens_ok len acc =
     (length (es_alpha acc) = len \<and> length (es_beta acc) = len \<and> length (es_cs acc) = len \<and>
      length (es_pBack acc) = len \<and> length (es_zhatBack acc) = len)"

subsection \<open>Concrete inputs\<close>

text \<open>
  A model with two states, one input and two categories over two time steps, with its
  weights in the documented shape \<open>k x d x c\<close> (\<open>ex_w\<close>) and with the last category
  left out (\<open>ex_w_reduced\<close>).
\<close>

definition ex_model :: glmhmm where
  "ex_model =
     \<lparr>dim_n = 2, dim_d = 1, dim_c = 2, dim_k = 2, hessian = False, gaussianPrior = 0,
      obj_w = [[[0, 0]], [[0, 0]]], obj_phi = [], obj_pi0 = None\<rparr>"

definition ex_A :: matrix where
  "ex_A = [[3 / 4, 1 / 4], [1 / 4, 3 / 4]]"

definition ex_w :: tensor where
  "ex_w = [[[0, 0]], [[0, 0]]]"

definition ex_w_reduced :: tensor where
  "ex_w_reduced = [[[0]], [[0]]]"

definition ex_x :: matrix where
  "ex_x = [[1], [1]]"

definition ex_y :: vec where
  "ex_y = [0, 1]"

text \<open>
  Collaborators for a model with one state over two time steps. The forward pass reports
  \<open>A[0][0]\<close> times the length of its slice as the log-likelihood, and the update of the
  transitions adds \<open>delta\<close> to \<open>A[0][0]\<close>: with \<open>delta = 0\<close> the trace is constant, with
  \<open>delta = 1\<close> it grows by the same amount in every iteration.
\<close>

definition toy_co :: "real \<Rightarrow> collab" where
  "toy_co delta =
     \<lparr>compObs = (\<lambda>xi wz. Inr [1 / 2, 1 / 2]),
      forwardPass = (\<lambda>ys A phis pi0.
        Inr (A ! 0 ! 0 * real (length ys), map (\<lambda>v. [1]) ys, map (\<lambda>v. 1) ys)),
      backwardPass = (\<lambda>ys A phis alpha cs.
        Inr (map (\<lambda>v. [1 / 2]) ys, map (\<lambda>v. [1]) ys, map (\<lambda>v. 0) ys)),
      updateTransitions = (\<lambda>y alpha beta cs A phi. Inr [[A ! 0 ! 0 + delta]]),
      updateInitStates = (\<lambda>g. Inr [1]),
      glm_fit = (\<lambda>x w yy h g gp. Inr (w, map (\<lambda>v. [1 / 2, 1 / 2]) x))\<rparr>"

definition toy_phi :: tensor where
  "toy_phi = [[[1 / 2, 1 / 2]], [[1 / 2, 1 / 2]]]"

definition toy_m :: glmhmm where
  "toy_m =
     \<lparr>dim_n = 2, dim_d = 1, dim_c = 2, dim_k = 1, hessian = False, gaussianPrior = 0,
      obj_w = [[[0, 0]]], obj_phi = toy_phi, obj_pi0 = None\<rparr>"

definition toy_y :: vec where
  "toy_y = [0, 1]"

definition toy_x :: matrix where
  "toy_x = [[1], [1]]"

definition toy_w :: tensor where
  "toy_w = [[[0, 0]]]"

definition toy_state :: "real option list \<Rightarrow> real \<Rightarrow> vec option \<Rightarrow> fit_state" where
  "toy_state lls a pi0 =
     \<lparr>st_lls = lls, st_A = [[a]], st_w = toy_w, st_phi = toy_phi, st_pi0 = pi0,
      st_self = toy_m\<lparr>obj_pi0 := pi0\<rparr>\<rparr>"

definition toy_estep :: "real \<Rightarrow> estep_out" where
  "toy_estep a =
     \<lparr>es_ll = 2 * a, es_alpha = [[1], [1]], es_beta = [[1], [1]], es_cs = [1, 1],
      es_pBack = [[1 / 2], [1 / 2]], es_zhatBack = [0, 0]\<rparr>"

text \<open>
  A second set of collaborators for the same model, whose results depend on what they are
  given: the forward pass adds the observations and the emission probabilities of its
  slice to the log-likelihood, the backward pass returns \<open>1/2 + y[t]/4\<close> as the posterior
  at \<open>t\<close>, and the regression solve returns as weights the sum of the responsibilities
  and the number of columns of the one-hot matrix.
\<close>

definition toy_co2 :: collab where
  "toy_co2 =
     \<lparr>compObs = (\<lambda>xi wz. Inr [1 / 2, 1 / 2]),
      forwardPass = (\<lambda>ys A phis pi0.
        Inr (A ! 0 ! 0 * real (length ys) + sum_list ys + sum_list (concat (concat phis)),
             map (\<lambda>v. [1]) ys, map (\<lambda>v. 1) ys)),
      backwardPass = (\<lambda>ys A phis alpha cs.
        Inr (map (\<lambda>v. [1 / 2 + v / 4]) ys, map (\<lambda>v. [1]) ys, map (\<lambda>v. 0) ys)),
      updateTransitions = (\<lambda>y alpha beta cs A phi. Inr A),
      updateInitStates = (\<lambda>g. Inr [1]),
      glm_fit = (\<lambda>x w yy h g gp.
        Inr ([[sum_list g, (case yy of [] \<Rightarrow> 0 | r # rs \<Rightarrow> real (length r))]],
             map (\<lambda>v. [1 / 2, 1 / 2]) x))\<rparr>"

definition toy_after :: fit_state where
  "toy_after =
     \<lparr>st_lls = [Some 9, None], st_A = [[3]], st_w = [[[13 / 16, 2]]], st_phi = toy_phi,
      st_pi0 = None, st_self = toy_m\<lparr>obj_w := [[[13 / 16, 2]]]\<rparr>\<rparr>"

declare fit_loop.simps [simp del]

section \<open>Properties\<close>

subsection \<open>Exceptions and primitives\<close>

lemma ebind_Inr: "ebind m f = Inr r \<Longrightarrow> \<exists>v. m = Inr v \<and> f v = Inr r"
  by (cases m) (simp_all add: ebind_def)

lemma sequence_err_length: "sequence_err ms = Inr vs \<Longrightarrow> length vs = length ms"
  by (induction ms arbitrary: vs) (auto split: sum.splits)

lemma chunks_numeral:
  "chunks (numeral v) len xs = take len xs # chunks (pred_numeral v) len (drop len xs)"
  by (simp add: numeral_eq_Suc)

subsection \<open>computeVariance\<close>

text \<open>
  With \<open>gaussPrior = 0\<close> the objective never returns a value: whatever the other
  arguments are, the call ends in an exception.
\<close>

lemma logLikelihood_zero_prior: "logLikelihood m 0 ps y x \<noteq> Inr v"
  by (auto simp: logLikelihood_def objective_def py_truediv_def ebind_def split: sum.splits)

text \<open>With a positive \<open>gaussPrior\<close> the same input gives a value.\<close>

lemma objective_prior_one:
  "computeVariance_objective ex_model ex_x ex_y ex_A ex_w_reduced 1 = Inr (ln 2)"
  by (simp add: computeVariance_objective_def logLikelihood_def params_flat_def A_flat_def
      w_flat_def ex_model_def ex_x_def ex_y_def ex_A_def ex_w_reduced_def unflatten_A_def
      unflatten_w_def reshape2_def reshape3_def last_dim_def ebind_def py_slice_def
      slice_bound_def chunks_numeral all_phi_def state_phi_def matmul_def forward_cs_def
      obs_column_def py_index_def py_int_def objective_def py_truediv_def Let_def
      softmax_rows_def upt_rec dot_def column_def vecmat_def ln_div)

text \<open>
  C1. The claim: the L2 penalty is added only when a Gaussian prior is requested, and with
  the default \<open>gaussPrior = 0\<close> the objective is \<open>-sum(log(cs))\<close> and its evaluation
  never divides by zero. The code adds the penalty always, so with \<open>gaussPrior = 0\<close> it
  evaluates \<open>1/(2*0**2)\<close>: on the input below, whose weights pass the reshape, the
  objective raises ZeroDivisionError.
\<close>

theorem objective_default_prior_raises:
  "computeVariance_objective ex_model ex_x ex_y ex_A ex_w_reduced 0 = Inl ZeroDivisionError"
  by (simp add: computeVariance_objective_def logLikelihood_def params_flat_def A_flat_def
      w_flat_def ex_model_def ex_x_def ex_y_def ex_A_def ex_w_reduced_def unflatten_A_def
      unflatten_w_def reshape2_def reshape3_def last_dim_def ebind_def py_slice_def
      slice_bound_def chunks_numeral all_phi_def state_phi_def matmul_def forward_cs_def
      obs_column_def py_index_def py_int_def objective_def py_truediv_def Let_def
      softmax_rows_def upt_rec)

text \<open>
  C2. The claim: the flat vector holds the first \<open>k - 1\<close> columns of \<open>A\<close> and only the
  first \<open>c - 1\<close> category slices of \<open>w\<close>, so that it has \<open>k*(k-1) + k*d*(c-1)\<close> entries
  and its weight part reshapes into \<open>(k, d, c-1)\<close>. The code flattens all of \<open>w\<close>: for
  weights of the documented shape \<open>k x d x c\<close> the vector has \<open>k*(k-1) + k*d*c\<close> entries
  (here 6, not 4), the reshape of the weight part raises ValueError, and so does the
  objective.
\<close>

theorem flat_weights_do_not_reshape:
  "length (params_flat ex_model ex_A ex_w) = 6 \<and>
   unflatten_w ex_model (params_flat ex_model ex_A ex_w) = Inl ValueError \<and>
   computeVariance_objective ex_model ex_x ex_y ex_A ex_w 1 = Inl ValueError"
  by (simp add: computeVariance_objective_def logLikelihood_def params_flat_def A_flat_def
      w_flat_def ex_model_def ex_A_def ex_w_def unflatten_A_def unflatten_w_def reshape2_def
      reshape3_def last_dim_def ebind_def py_slice_def slice_bound_def chunks_numeral Let_def)

text \<open>
  The part of the flat vector that comes from \<open>A\<close>: for a \<open>k x k\<close> matrix whose rows sum
  to one, rebuilding \<open>A\<close> from the flat vector gives \<open>A\<close> back, whatever the weights are.
\<close>

lemma chunks_concat:
  "length rows = r \<Longrightarrow> \<forall>row \<in> set rows. length row = len \<Longrightarrow>
   chunks r len (concat rows @ rest) = rows"
  by (induction rows arbitrary: r) auto

lemma length_concat_rows:
  "\<forall>row \<in> set rows. length row = len \<Longrightarrow> length (concat rows) = length rows * len"
  by (induction rows) simp_all

lemma py_slice_row:
  "length row = kk \<Longrightarrow> 0 < kk \<Longrightarrow> py_slice 0 (int kk - 1) row = take (kk - 1) row"
  by (simp add: py_slice_def slice_bound_def Let_def nat_diff_distrib')

lemma row_rebuilt:
  assumes "length row = kk" and "0 < kk" and "sum_list row = (1 :: real)"
  shows "take (kk - 1) row @ [1 - sum_list (take (kk - 1) row)] = row"
proof -
  from assms(1,2) have ne: "row \<noteq> []" by auto
  have bl: "take (kk - 1) row = butlast row" using assms(1) by (simp add: butlast_conv_take)
  have split: "butlast row @ [last row] = row" using ne by simp
  have "sum_list row = sum_list (butlast row) + last row"
    by (subst split [symmetric]) simp
  with assms(3) have "1 - sum_list (butlast row) = last row" by simp
  with bl split show ?thesis by simp
qed

lemma unflatten_A_roundtrip:
  assumes k: "0 < dim_k m" and len: "length A = dim_k m"
    and rows: "\<forall>row \<in> set A. length row = dim_k m \<and> sum_list row = 1"
  shows "unflatten_A m (params_flat m A w) = Inr A"
proof -
  let ?k = "dim_k m"
  let ?cut = "map (take (?k - 1)) A"
  have flat: "A_flat m A = concat ?cut"
    using rows k by (simp add: A_flat_def py_slice_row cong: map_cong)
  have cut_len: "\<forall>row \<in> set ?cut. length row = ?k - 1" using rows by auto
  have size: "length (concat ?cut) = ?k * (?k - 1)"
    using length_concat_rows [OF cut_len] len by simp
  have head: "take (?k * (?k - 1)) (params_flat m A w) = concat ?cut"
    using size by (simp add: params_flat_def flat)
  have dim: "last_dim (?k * (?k - 1)) ?k (int ?k - 1) = Inr (?k - 1)"
    using k by (simp add: last_dim_def nat_diff_distrib')
  have "chunks ?k (?k - 1) (concat ?cut @ []) = ?cut"
    using len cut_len by (intro chunks_concat) simp_all
  then have shaped: "reshape2 ?k (int ?k - 1) (concat ?cut) = Inr ?cut"
    using size dim by (simp add: reshape2_def ebind_def)
  have "map (\<lambda>row. row @ [1 - sum_list row]) ?cut = A"
  proof -
    have "map (\<lambda>row. row @ [1 - sum_list row]) ?cut =
          map (\<lambda>row. take (?k - 1) row @ [1 - sum_list (take (?k - 1) row)]) A"
      by (simp add: comp_def)
    also have "\<dots> = map (\<lambda>row. row) A"
      using rows k by (intro map_cong refl row_rebuilt) auto
    finally show ?thesis by simp
  qed
  then have rebuilt: "Inr (map (\<lambda>row. row @ [1 - sum_list row]) ?cut) = (Inr A :: error + matrix)"
    by (rule arg_cong)
  have "unflatten_A m (params_flat m A w) =
      ebind (reshape2 ?k (int ?k - 1) (concat ?cut))
        (\<lambda>A. Inr (map (\<lambda>row. row @ [1 - sum_list row]) A))"
    unfolding unflatten_A_def head ..
  also have "\<dots> = Inr (map (\<lambda>row. row @ [1 - sum_list row]) ?cut)"
    unfolding shaped by (simp add: ebind_def)
  finally show ?thesis using rebuilt by simp
qed

text \<open>
  The part that comes from \<open>w\<close>: for weights of the documented shape \<open>k x d x c\<close> with
  \<open>k\<close>, \<open>d\<close> and \<open>c\<close> positive, the flat vector has \<open>k*(k-1) + k*d*c\<close> entries and the
  reshape of its weight part into \<open>(k, d, c-1)\<close> raises.
\<close>

lemma documented_weights_do_not_reshape:
  assumes k: "0 < dim_k m" and d: "0 < dim_d m" and c: "0 < dim_c m"
    and lenA: "length A = dim_k m" and rowsA: "\<forall>row \<in> set A. length row = dim_k m"
    and lenw: "length w = dim_k m"
    and matw: "\<forall>wz \<in> set w. length wz = dim_d m \<and> (\<forall>row \<in> set wz. length row = dim_c m)"
  shows "length (params_flat m A w) = dim_k m * (dim_k m - 1) + dim_k m * dim_d m * dim_c m \<and>
    unflatten_w m (params_flat m A w) = Inl ValueError"
proof -
  let ?k = "dim_k m"
  let ?cut = "map (take (?k - 1)) A"
  have flat: "A_flat m A = concat ?cut"
    using rowsA k by (simp add: A_flat_def py_slice_row cong: map_cong)
  have cut_len: "\<forall>row \<in> set ?cut. length row = ?k - 1" using rowsA by auto
  have sizeA: "length (A_flat m A) = ?k * (?k - 1)"
    using length_concat_rows [OF cut_len] lenA flat by simp
  have mats: "\<forall>rows \<in> set (map concat w). length rows = dim_d m * dim_c m"
  proof
    fix rows assume "rows \<in> set (map concat w)"
    then obtain wz where wz: "wz \<in> set w" "rows = concat wz" by auto
    with matw have "\<forall>row \<in> set wz. length row = dim_c m" "length wz = dim_d m" by simp_all
    with length_concat_rows [of wz "dim_c m"] wz(2) show "length rows = dim_d m * dim_c m"
      by simp
  qed
  have "w_flat w = concat (map concat w)" unfolding w_flat_def by (induction w) simp_all
  then have sizew: "length (w_flat w) = ?k * dim_d m * dim_c m"
    using length_concat_rows [OF mats] lenw by simp
  have total: "length (params_flat m A w) = ?k * (?k - 1) + ?k * dim_d m * dim_c m"
    using sizeA sizew by (simp add: params_flat_def)
  have rest: "drop (?k * (?k - 1)) (params_flat m A w) = w_flat w"
    using sizeA by (simp add: params_flat_def)
  have "?k * dim_d m * nat (int (dim_c m) - 1) \<noteq> ?k * dim_d m * dim_c m"
    using k d c by (simp add: nat_diff_distrib')
  then have "last_dim (length (w_flat w)) (?k * dim_d m) (int (dim_c m) - 1) = Inl ValueError"
    unfolding sizew using c by (simp add: last_dim_def)
  then have "reshape3 ?k (dim_d m) (int (dim_c m) - 1) (w_flat w) = Inl ValueError"
    unfolding reshape3_def by (simp add: ebind_def)
  then have "unflatten_w m (params_flat m A w) = Inl ValueError"
    unfolding unflatten_w_def rest .
  with total show ?thesis by simp
qed

subsection \<open>The EM loop\<close>

lemma em_iteration_lls:
  "em_iteration co y x fis sess B i st = Inr (ll, st') \<Longrightarrow> st_lls st' = (st_lls st)[i := Some ll]"
  by (auto simp: em_iteration_def ebind_def Let_def split: sum.splits prod.splits)

lemma em_iteration_estep:
  "em_iteration co y x fis sess B i st = Inr (ll, st') \<Longrightarrow>
   \<exists>e. estep co (st_self st) y (st_A st) (st_phi st) (st_pi0 st) sess B = Inr e \<and> ll = es_ll e \<and>
     updateParams co (st_self st) y x (es_pBack e) (es_beta e) (es_alpha e) (es_cs e)
       (st_A st) (st_phi st) (st_w st) fis =
     Inr (st_A st', st_w st', st_phi st', st_pi0 st', st_self st')"
  by (auto simp: em_iteration_def ebind_def Let_def split: sum.splits prod.splits)

lemma run_iters_length:
  "run_iters co y x fis sess B i cnt st = Inr st' \<Longrightarrow> length (st_lls st') = length (st_lls st)"
proof (induction cnt arbitrary: i st)
  case 0
  then show ?case by simp
next
  case (Suc cnt)
  then show ?case
    by (auto split: sum.splits prod.splits dest!: em_iteration_lls)
qed

lemma run_iters_outside:
  "run_iters co y x fis sess B i cnt st = Inr st' \<Longrightarrow> j < i \<or> i + cnt \<le> j \<Longrightarrow>
   st_lls st' ! j = st_lls st ! j"
proof (induction cnt arbitrary: i st)
  case 0
  then show ?case by simp
next
  case (Suc cnt)
  from Suc.prems(1) obtain ll st1 where
    e: "em_iteration co y x fis sess B i st = Inr (ll, st1)"
    and r: "run_iters co y x fis sess B (Suc i) cnt st1 = Inr st'"
    by (auto split: sum.splits prod.splits)
  have "st_lls st' ! j = st_lls st1 ! j"
    using Suc.IH [OF r] Suc.prems(2) by auto
  also have "\<dots> = st_lls st ! j"
    using em_iteration_lls [OF e] Suc.prems(2) by auto
  finally show ?case .
qed

text \<open>A run of \<open>cnt\<close> iterations passes through the state after any smaller number.\<close>

lemma run_iters_prefix:
  "run_iters co y x fis sess B i cnt st = Inr st' \<Longrightarrow> j \<le> cnt \<Longrightarrow>
   \<exists>st1. run_iters co y x fis sess B i j st = Inr st1 \<and>
     run_iters co y x fis sess B (i + j) (cnt - j) st1 = Inr st'"
proof (induction j arbitrary: i cnt st)
  case 0
  then show ?case by simp
next
  case (Suc j)
  from Suc.prems(2) obtain cnt' where cnt: "cnt = Suc cnt'" by (cases cnt) simp_all
  from Suc.prems(1) cnt obtain ll st1 where
    e: "em_iteration co y x fis sess B i st = Inr (ll, st1)"
    and r: "run_iters co y x fis sess B (Suc i) cnt' st1 = Inr st'"
    by (auto split: sum.splits prod.splits)
  from Suc.IH [OF r] Suc.prems(2) cnt obtain st2 where
    "run_iters co y x fis sess B (Suc i) j st1 = Inr st2"
    "run_iters co y x fis sess B (Suc i + j) (cnt' - j) st2 = Inr st'"
    by auto
  then show ?case using e cnt by simp
qed

text \<open>
  Iteration \<open>j\<close> of a run starts from the state after \<open>j\<close> iterations, and the
  log-likelihood of its E-step is entry \<open>j\<close> of the trace at the end of the run.
\<close>

lemma run_iters_entry:
  assumes run: "run_iters co y x fis sess B 0 cnt st = Inr st'"
    and j: "j < cnt" and len: "cnt \<le> length (st_lls st)"
  shows "\<exists>st1 ll st2.
    run_iters co y x fis sess B 0 j st = Inr st1 \<and>
    em_iteration co y x fis sess B j st1 = Inr (ll, st2) \<and>
    run_iters co y x fis sess B (Suc j) (cnt - Suc j) st2 = Inr st' \<and>
    st_lls st' ! j = Some ll"
proof -
  from run_iters_prefix [OF run, of j] j obtain st1 where
    p: "run_iters co y x fis sess B 0 j st = Inr st1"
    and r: "run_iters co y x fis sess B j (cnt - j) st1 = Inr st'"
    by auto
  from j obtain c' where c': "cnt - j = Suc c'" by (cases "cnt - j") simp_all
  from r c' obtain ll st2 where
    e: "em_iteration co y x fis sess B j st1 = Inr (ll, st2)"
    and r2: "run_iters co y x fis sess B (Suc j) c' st2 = Inr st'"
    by (auto split: sum.splits prod.splits)
  have c'': "c' = cnt - Suc j" using c' by simp
  have "length (st_lls st1) = length (st_lls st)" by (rule run_iters_length [OF p])
  then have "st_lls st2 ! j = Some ll"
    using em_iteration_lls [OF e] j len by simp
  moreover have "st_lls st' ! j = st_lls st2 ! j"
    using run_iters_outside [OF r2, of j] by simp
  ultimately show ?thesis using p e r2 c'' by auto
qed

lemma tolerance_reached_lagged:
  "lls ! i = Some ll \<Longrightarrow> tolerance_reached tol lls i ll = lagged_rule tol lls i"
  by (simp add: tolerance_reached_def lagged_rule_def split: option.splits)

lemma lagged_rule_cong:
  "lls ! j = lls' ! j \<Longrightarrow> lls ! (j - 5) = lls' ! (j - 5) \<Longrightarrow>
   lagged_rule tol lls j = lagged_rule tol lls' j"
  by (simp add: lagged_rule_def split: option.splits)

text \<open>
  The loop is the body run \<open>cnt\<close> times, where \<open>cnt\<close> is fixed by the lagged rule on the
  trace: the rule fails at every index before the last one run, and it holds at the last
  one when the loop ends before \<open>maxiter\<close>.
\<close>

lemma fit_loop_runs:
  "fit_loop co y x fis maxiter tol sess B i st = Inr stF \<Longrightarrow> i \<le> maxiter \<Longrightarrow>
   length (st_lls st) = maxiter \<Longrightarrow>
   \<exists>cnt. i + cnt \<le> maxiter \<and> run_iters co y x fis sess B i cnt st = Inr stF \<and>
     (\<forall>j. i \<le> j \<and> Suc j < i + cnt \<longrightarrow> \<not> lagged_rule tol (st_lls stF) j) \<and>
     (i + cnt < maxiter \<longrightarrow> 0 < cnt \<and> lagged_rule tol (st_lls stF) (i + cnt - 1))"
proof (induction co y x fis maxiter tol sess B i st rule: fit_loop.induct)
  case (1 co y x fis maxiter tol sess B i st)
  show ?case
  proof (cases "maxiter \<le> i")
    case True
    with "1.prems" have "stF = st" "i = maxiter" by (simp_all add: fit_loop.simps)
    then show ?thesis by (intro exI [of _ 0]) auto
  next
    case False
    with "1.prems"(1) obtain ll st1 where
      e: "em_iteration co y x fis sess B i st = Inr (ll, st1)"
      by (subst (asm) fit_loop.simps) (auto split: sum.splits prod.splits)
    have lls1: "st_lls st1 = (st_lls st)[i := Some ll]" by (rule em_iteration_lls [OF e])
    have at_i: "st_lls st1 ! i = Some ll" using lls1 False "1.prems"(3) by simp
    show ?thesis
    proof (cases "tolerance_reached tol (st_lls st1) i ll")
      case True
      with "1.prems"(1) False e have "stF = st1"
        by (subst (asm) fit_loop.simps) simp
      moreover have "lagged_rule tol (st_lls st1) i"
        using True tolerance_reached_lagged [OF at_i] by simp
      ultimately show ?thesis
        using e False by (intro exI [of _ 1]) auto
    next
      case nt: False
      with "1.prems"(1) False e have
        r: "fit_loop co y x fis maxiter tol sess B (Suc i) st1 = Inr stF"
        by (subst (asm) fit_loop.simps) simp
      have len1: "length (st_lls st1) = maxiter" using lls1 "1.prems"(3) by simp
      from "1.IH" [OF False e refl nt r _ len1] False
      obtain cnt where
        c1: "Suc i + cnt \<le> maxiter" and
        c2: "run_iters co y x fis sess B (Suc i) cnt st1 = Inr stF" and
        c3: "\<forall>j. Suc i \<le> j \<and> Suc j < Suc i + cnt \<longrightarrow> \<not> lagged_rule tol (st_lls stF) j" and
        c4: "Suc i + cnt < maxiter \<longrightarrow> 0 < cnt \<and> lagged_rule tol (st_lls stF) (Suc i + cnt - 1)"
        by auto
      have keep: "\<And>j. j \<le> i \<Longrightarrow> st_lls stF ! j = st_lls st1 ! j"
        using run_iters_outside [OF c2] by simp
      have not_i: "\<not> lagged_rule tol (st_lls stF) i"
      proof -
        have "lagged_rule tol (st_lls stF) i = lagged_rule tol (st_lls st1) i"
          by (rule lagged_rule_cong) (simp_all add: keep)
        then show ?thesis using nt tolerance_reached_lagged [OF at_i] by simp
      qed
      have run: "run_iters co y x fis sess B i (Suc cnt) st = Inr stF"
        using e c2 by simp
      have "\<forall>j. i \<le> j \<and> Suc j < i + Suc cnt \<longrightarrow> \<not> lagged_rule tol (st_lls stF) j"
      proof (intro allI impI)
        fix j assume j: "i \<le> j \<and> Suc j < i + Suc cnt"
        show "\<not> lagged_rule tol (st_lls stF) j"
        proof (cases "j = i")
          case True
          then show ?thesis using not_i by simp
        next
          case False
          with j have "Suc i \<le> j \<and> Suc j < Suc i + cnt" by simp
          with c3 show ?thesis by blast
        qed
      qed
      moreover have "i + Suc cnt < maxiter \<longrightarrow>
        0 < Suc cnt \<and> lagged_rule tol (st_lls stF) (i + Suc cnt - 1)"
      proof
        assume "i + Suc cnt < maxiter"
        then have "Suc i + cnt < maxiter" by simp
        with c4 have "0 < cnt" "lagged_rule tol (st_lls stF) (Suc i + cnt - 1)" by simp_all
        then show "0 < Suc cnt \<and> lagged_rule tol (st_lls stF) (i + Suc cnt - 1)" by simp
      qed
      ultimately show ?thesis
        using c1 run by (intro exI [of _ "Suc cnt"]) simp
    qed
  qed
qed

lemma fit_start_state:
  "fit_start co m x A w pi0 maxiter = Inr st0 \<Longrightarrow>
   st_lls st0 = replicate maxiter None \<and> st_A st0 = A \<and> st_w st0 = w \<and> st_pi0 st0 = pi0 \<and>
   obj_pi0 (st_self st0) = pi0"
  by (auto simp: fit_start_def Let_def dest!: ebind_Inr)

text \<open>What a successful call of \<open>fit\<close> is made of.\<close>

lemma fit_Inr:
  assumes "fit co m y x A w pi0 fis maxiter tol sess B = Inr r"
  shows "0 \<le> maxiter \<and>
    (\<exists>st0 cnt stF. fit_start co m x A w pi0 (nat maxiter) = Inr st0 \<and> cnt \<le> nat maxiter \<and>
       run_iters co y x fis (fit_sess m sess) B 0 cnt st0 = Inr stF \<and> r = fit_return stF \<and>
       (\<forall>j. Suc j < cnt \<longrightarrow> \<not> lagged_rule tol (st_lls stF) j) \<and>
       (cnt < nat maxiter \<longrightarrow> 0 < cnt \<and> lagged_rule tol (st_lls stF) (cnt - 1)))"
proof -
  from assms have nn: "0 \<le> maxiter"
    by (auto simp: fit_def split: if_splits)
  from assms nn obtain st0 stF where
    s: "fit_start co m x A w pi0 (nat maxiter) = Inr st0"
    and l: "fit_loop co y x fis (nat maxiter) tol (fit_sess m sess) B 0 st0 = Inr stF"
    and r: "r = fit_return stF"
    by (auto simp: fit_def dest!: ebind_Inr)
  have len: "length (st_lls st0) = nat maxiter" using fit_start_state [OF s] by simp
  from fit_loop_runs [OF l _ len] obtain cnt where
    "cnt \<le> nat maxiter" "run_iters co y x fis (fit_sess m sess) B 0 cnt st0 = Inr stF"
    "\<forall>j. Suc j < cnt \<longrightarrow> \<not> lagged_rule tol (st_lls stF) j"
    "cnt < nat maxiter \<longrightarrow> 0 < cnt \<and> lagged_rule tol (st_lls stF) (cnt - 1)"
    by auto
  with nn s r show ?thesis by blast
qed

subsection \<open>The concrete run\<close>

lemma toy_estep_eval:
  "estep (toy_co delta) (toy_m\<lparr>obj_pi0 := pi0\<rparr>) toy_y [[a]] toy_phi pi0 [0, 2] 1 =
     Inr (toy_estep a)"
  by (simp add: estep_def estep_init_def session_step_def session_forward_def
      session_backward_def toy_co_def toy_m_def toy_phi_def toy_y_def toy_estep_def py_slice_def
      slice_bound_def ebind_def assign_mat_def assign_vec_def broadcast_rows_def
      broadcast_vec_def splice_def np_power_def Let_def)

lemma toy_one_hot: "one_hot toy_y = Inr [[1, 0], [0, 1]]"
  by (simp add: one_hot_def toy_y_def astype_int_def add_int64_def py_int_def set_one_def Let_def
      numeral_2_eq_2)

lemma toy_mstep:
  "updateParams (toy_co delta) (toy_m\<lparr>obj_pi0 := pi0\<rparr>) toy_y toy_x [[1 / 2], [1 / 2]]
     [[1], [1]] [[1], [1]] [1, 1] [[a]] toy_phi toy_w False =
     Inr ([[a + delta]], toy_w, toy_phi, pi0, toy_m\<lparr>obj_pi0 := pi0\<rparr>)"
  by (simp add: updateParams_def updateObservations_def toy_one_hot ebind_def toy_co_def
      toy_m_def toy_phi_def toy_x_def toy_w_def broadcast_rows_def broadcast_vec_def
      set_state_def column_def numeral_2_eq_2)

lemma toy_iteration:
  "em_iteration (toy_co delta) toy_y toy_x False [0, 2] 1 i (toy_state lls a pi0) =
     Inr (2 * a, toy_state (lls[i := Some (2 * a)]) (a + delta) pi0)"
  by (simp add: em_iteration_def toy_state_def toy_estep_eval toy_mstep ebind_def Let_def
      toy_estep_def)

lemma toy_start:
  "fit_start (toy_co delta) toy_m toy_x [[a]] toy_w pi0 maxiter =
     Inr (toy_state (replicate maxiter None) a pi0)"
  by (simp add: fit_start_def init_phi_def toy_co_def toy_m_def toy_phi_def toy_state_def
      toy_x_def toy_w_def ebind_def broadcast_vec_def Let_def upt_rec)

lemma toy_sess: "fit_sess toy_m None = [0, 2]"
  by (simp add: fit_sess_def toy_m_def)

lemma toy_state_lls: "st_lls (toy_state lls a pi0) = lls"
  by (simp add: toy_state_def)

text \<open>With a constant trace the loop ends at index 6, after seven of ten iterations.\<close>

lemma toy_fit_constant:
  "fit (toy_co 0) toy_m toy_y toy_x [[1]] toy_w (Some [1]) False 10 (1 / 1000) None 1 =
     Inr (fit_return (toy_state
       [Some 2, Some 2, Some 2, Some 2, Some 2, Some 2, Some 2, None, None, None] 1 (Some [1])))"
  by (simp add: fit_def toy_start ebind_def toy_sess fit_loop.simps toy_iteration
      tolerance_reached_def eval_nat_numeral toy_state_lls)

text \<open>With a trace that grows by 2 in every iteration the loop runs all seven iterations.\<close>

lemma toy_fit_growing:
  "fit (toy_co 1) toy_m toy_y toy_x [[0]] toy_w (Some [1]) False 7 (1 / 1000) None 1 =
     Inr (fit_return (toy_state
       [Some 0, Some 2, Some 4, Some 6, Some 8, Some 10, Some 12] 7 (Some [1])))"
  by (simp add: fit_def toy_start ebind_def toy_sess fit_loop.simps toy_iteration
      tolerance_reached_def eval_nat_numeral toy_state_lls)

lemma toy_growing_rule:
  "j < 7 \<Longrightarrow> \<not> lagged_rule (1 / 1000) [Some 0, Some 2, Some 4, Some 6, Some 8, Some 10, Some 12] j"
proof -
  assume j: "j < 7"
  show ?thesis
  proof (cases "j = 6")
    case True
    then show ?thesis by (simp add: lagged_rule_def)
  next
    case False
    with j have "\<not> 5 < j" by simp
    then show ?thesis by (simp add: lagged_rule_def)
  qed
qed

subsection \<open>Claims about the loop of fit\<close>

text \<open>
  C5. Calling \<open>fit\<close> with \<open>sess = None\<close> gives the same result (trace, \<open>A\<close>, \<open>w\<close>, \<open>pi0\<close>,
  and also the same exception when there is one) as calling it with the explicit
  boundaries \<open>[0, n]\<close> of a single session, \<open>n\<close> being the \<open>self.n\<close> of the model.
\<close>

theorem fit_default_session:
  "fit co m y x A w pi0 fis maxiter tol None B =
   fit co m y x A w pi0 fis maxiter tol (Some [0, int (dim_n m)]) B"
  by (simp add: fit_def fit_sess_def)

text \<open>
  C3. A call of \<open>fit\<close> that returns has run the body of the loop \<open>cnt\<close> times, where: the
  lagged rule (index \<open>j > 5\<close> and \<open>lls[j-5] + tol >= lls[j]\<close>, read off the returned trace)
  fails at every index before the last one run; when \<open>cnt < maxiter\<close> it holds at the last
  index run, \<open>cnt - 1\<close>; and when it holds at no index below \<open>maxiter\<close>, \<open>cnt = maxiter\<close>.
\<close>

theorem fit_stops_by_lagged_rule:
  assumes "fit co m y x A w pi0 fis maxiter tol sess B = Inr r"
  shows "\<exists>st0 cnt stF.
    fit_start co m x A w pi0 (nat maxiter) = Inr st0 \<and> cnt \<le> nat maxiter \<and>
    run_iters co y x fis (fit_sess m sess) B 0 cnt st0 = Inr stF \<and> r = fit_return stF \<and>
    (\<forall>j. Suc j < cnt \<longrightarrow> \<not> lagged_rule tol (res_lls r) j) \<and>
    (cnt < nat maxiter \<longrightarrow> 0 < cnt \<and> lagged_rule tol (res_lls r) (cnt - 1)) \<and>
    ((\<forall>j < nat maxiter. \<not> lagged_rule tol (res_lls r) j) \<longrightarrow> cnt = nat maxiter)"
proof -
  from fit_Inr [OF assms] obtain st0 cnt stF where
    s: "fit_start co m x A w pi0 (nat maxiter) = Inr st0" and c: "cnt \<le> nat maxiter"
    and run: "run_iters co y x fis (fit_sess m sess) B 0 cnt st0 = Inr stF"
    and r: "r = fit_return stF"
    and before: "\<forall>j. Suc j < cnt \<longrightarrow> \<not> lagged_rule tol (st_lls stF) j"
    and last: "cnt < nat maxiter \<longrightarrow> 0 < cnt \<and> lagged_rule tol (st_lls stF) (cnt - 1)"
    by blast
  have lls: "res_lls r = st_lls stF" using r by (simp add: fit_return_def)
  have "(\<forall>j < nat maxiter. \<not> lagged_rule tol (res_lls r) j) \<longrightarrow> cnt = nat maxiter"
  proof
    assume never: "\<forall>j < nat maxiter. \<not> lagged_rule tol (res_lls r) j"
    show "cnt = nat maxiter"
    proof (rule ccontr)
      assume "cnt \<noteq> nat maxiter"
      with c have lt: "cnt < nat maxiter" by simp
      with last have "0 < cnt" "lagged_rule tol (res_lls r) (cnt - 1)" by (simp_all add: lls)
      moreover have "cnt - 1 < nat maxiter" using lt by simp
      ultimately show False using never by blast
    qed
  qed
  with s c run r before last lls show ?thesis by auto
qed

theorem fit_stops_by_lagged_rule_witness:
  "fit (toy_co 0) toy_m toy_y toy_x [[1]] toy_w (Some [1]) False 10 (1 / 1000) None 1 =
     Inr (fit_return (toy_state
       [Some 2, Some 2, Some 2, Some 2, Some 2, Some 2, Some 2, None, None, None] 1 (Some [1]))) \<and>
   (\<exists>st0 cnt stF.
      fit_start (toy_co 0) toy_m toy_x [[1]] toy_w (Some [1]) (nat 10) = Inr st0 \<and> cnt \<le> nat 10 \<and>
      run_iters (toy_co 0) toy_y toy_x False (fit_sess toy_m None) 1 0 cnt st0 = Inr stF \<and>
      fit_return (toy_state
        [Some 2, Some 2, Some 2, Some 2, Some 2, Some 2, Some 2, None, None, None] 1 (Some [1])) =
        fit_return stF \<and>
      cnt < nat 10 \<and> 0 < cnt \<and>
      lagged_rule (1 / 1000)
        [Some 2, Some 2, Some 2, Some 2, Some 2, Some 2, Some 2, None, None, None] (cnt - 1))"
proof -
  let ?lls = "[Some 2, Some 2, Some 2, Some 2, Some 2, Some 2, Some 2, None, None, None]
    :: real option list"
  from fit_stops_by_lagged_rule [OF toy_fit_constant] obtain st0 cnt stF where
    s: "fit_start (toy_co 0) toy_m toy_x [[1]] toy_w (Some [1]) (nat 10) = Inr st0"
    and c: "cnt \<le> nat 10"
    and run: "run_iters (toy_co 0) toy_y toy_x False (fit_sess toy_m None) 1 0 cnt st0 = Inr stF"
    and r: "fit_return (toy_state ?lls 1 (Some [1])) = fit_return stF"
    and last: "cnt < nat 10 \<longrightarrow> 0 < cnt \<and>
      lagged_rule (1 / 1000) (res_lls (fit_return (toy_state ?lls 1 (Some [1])))) (cnt - 1)"
    and never: "(\<forall>j < nat 10. \<not> lagged_rule (1 / 1000)
      (res_lls (fit_return (toy_state ?lls 1 (Some [1])))) j) \<longrightarrow> cnt = nat 10"
    by blast
  have lls: "res_lls (fit_return (toy_state ?lls 1 (Some [1]))) = ?lls"
    by (simp add: fit_return_def toy_state_def)
  have six: "lagged_rule (1 / 1000) ?lls 6" by (simp add: lagged_rule_def)
  have "cnt \<noteq> nat 10"
  proof
    assume full: "cnt = nat 10"
    from run_iters_entry [OF run, of 7] full s
    have "st_lls stF ! 7 \<noteq> None"
      using fit_start_state [OF s] by auto
    moreover have "st_lls stF = ?lls"
      using r by (simp add: fit_return_def toy_state_def)
    ultimately show False by simp
  qed
  with c have lt: "cnt < nat 10" by simp
  with last lls have "0 < cnt" "lagged_rule (1 / 1000) ?lls (cnt - 1)" by simp_all
  with s c run r lt toy_fit_constant show ?thesis by blast
qed

text \<open>
  C6. A call of \<open>fit\<close> that returns gives a trace of length \<open>maxiter\<close>. With \<open>cnt\<close> the
  number of iterations run, entry \<open>i < cnt\<close> is the log-likelihood of the E-step of
  iteration \<open>i\<close> (the E-step on the state after \<open>i\<close> iterations), every entry from \<open>cnt\<close> on
  is NaN, and \<open>A\<close>, \<open>w\<close> and \<open>pi0\<close> are those of the state after the last iteration.
\<close>

theorem fit_trace:
  assumes "fit co m y x A w pi0 fis maxiter tol sess B = Inr r"
  shows "int (length (res_lls r)) = maxiter \<and>
    (\<exists>st0 cnt stF.
       fit_start co m x A w pi0 (nat maxiter) = Inr st0 \<and> cnt \<le> nat maxiter \<and>
       run_iters co y x fis (fit_sess m sess) B 0 cnt st0 = Inr stF \<and>
       (\<forall>i < cnt. \<exists>st1 e.
          run_iters co y x fis (fit_sess m sess) B 0 i st0 = Inr st1 \<and>
          estep co (st_self st1) y (st_A st1) (st_phi st1) (st_pi0 st1) (fit_sess m sess) B =
            Inr e \<and>
          res_lls r ! i = Some (es_ll e)) \<and>
       (\<forall>i. cnt \<le> i \<and> i < nat maxiter \<longrightarrow> res_lls r ! i = None) \<and>
       res_A r = st_A stF \<and> res_w r = st_w stF \<and> res_pi0 r = st_pi0 stF)"
proof -
  from fit_Inr [OF assms] obtain st0 cnt stF where
    nn: "0 \<le> maxiter"
    and s: "fit_start co m x A w pi0 (nat maxiter) = Inr st0" and c: "cnt \<le> nat maxiter"
    and run: "run_iters co y x fis (fit_sess m sess) B 0 cnt st0 = Inr stF"
    and r: "r = fit_return stF"
    by blast
  have lls0: "st_lls st0 = replicate (nat maxiter) None" using fit_start_state [OF s] by simp
  have len: "length (st_lls stF) = nat maxiter"
    using run_iters_length [OF run] lls0 by simp
  have res: "res_lls r = st_lls stF" "res_A r = st_A stF" "res_w r = st_w stF"
    "res_pi0 r = st_pi0 stF"
    using r by (simp_all add: fit_return_def)
  have ran: "\<forall>i < cnt. \<exists>st1 e.
      run_iters co y x fis (fit_sess m sess) B 0 i st0 = Inr st1 \<and>
      estep co (st_self st1) y (st_A st1) (st_phi st1) (st_pi0 st1) (fit_sess m sess) B =
        Inr e \<and>
      res_lls r ! i = Some (es_ll e)"
  proof (intro allI impI)
    fix i assume i: "i < cnt"
    have "cnt \<le> length (st_lls st0)" using c lls0 by simp
    from run_iters_entry [OF run i this] obtain st1 ll st2 where
      p: "run_iters co y x fis (fit_sess m sess) B 0 i st0 = Inr st1"
      and e: "em_iteration co y x fis (fit_sess m sess) B i st1 = Inr (ll, st2)"
      and v: "st_lls stF ! i = Some ll"
      by blast
    from em_iteration_estep [OF e] obtain e' where
      "estep co (st_self st1) y (st_A st1) (st_phi st1) (st_pi0 st1) (fit_sess m sess) B = Inr e'"
      "ll = es_ll e'"
      by blast
    with p v res(1) show "\<exists>st1 e.
      run_iters co y x fis (fit_sess m sess) B 0 i st0 = Inr st1 \<and>
      estep co (st_self st1) y (st_A st1) (st_phi st1) (st_pi0 st1) (fit_sess m sess) B =
        Inr e \<and>
      res_lls r ! i = Some (es_ll e)"
      by auto
  qed
  have rest: "\<forall>i. cnt \<le> i \<and> i < nat maxiter \<longrightarrow> res_lls r ! i = None"
  proof (intro allI impI)
    fix i assume i: "cnt \<le> i \<and> i < nat maxiter"
    have "st_lls stF ! i = st_lls st0 ! i"
      using run_iters_outside [OF run, of i] i by simp
    then show "res_lls r ! i = None" using lls0 i res(1) by simp
  qed
  have "int (length (res_lls r)) = maxiter" using len nn res(1) by simp
  with s c run ran rest res show ?thesis by blast
qed

theorem fit_trace_witness:
  "fit (toy_co 0) toy_m toy_y toy_x [[1]] toy_w (Some [1]) False 10 (1 / 1000) None 1 =
     Inr (fit_return (toy_state
       [Some 2, Some 2, Some 2, Some 2, Some 2, Some 2, Some 2, None, None, None] 1 (Some [1]))) \<and>
   int (length (res_lls (fit_return (toy_state
       [Some 2, Some 2, Some 2, Some 2, Some 2, Some 2, Some 2, None, None, None] 1 (Some [1]))))) = 10 \<and>
   (\<exists>st0 cnt stF.
      fit_start (toy_co 0) toy_m toy_x [[1]] toy_w (Some [1]) (nat 10) = Inr st0 \<and> cnt \<le> nat 10 \<and>
      run_iters (toy_co 0) toy_y toy_x False (fit_sess toy_m None) 1 0 cnt st0 = Inr stF \<and>
      (\<forall>i < cnt. \<exists>st1 e.
         run_iters (toy_co 0) toy_y toy_x False (fit_sess toy_m None) 1 0 i st0 = Inr st1 \<and>
         estep (toy_co 0) (st_self st1) toy_y (st_A st1) (st_phi st1) (st_pi0 st1)
           (fit_sess toy_m None) 1 = Inr e \<and>
         res_lls (fit_return (toy_state
           [Some 2, Some 2, Some 2, Some 2, Some 2, Some 2, Some 2, None, None, None] 1 (Some [1]))) ! i =
         Some (es_ll e)) \<and>
      (\<forall>i. cnt \<le> i \<and> i < nat 10 \<longrightarrow>
         res_lls (fit_return (toy_state
           [Some 2, Some 2, Some 2, Some 2, Some 2, Some 2, Some 2, None, None, None] 1 (Some [1]))) ! i =
         None))"
proof -
  from fit_trace [OF toy_fit_constant] toy_fit_constant show ?thesis by blast
qed

text \<open>
  C8. The claim: when \<open>fit\<close> runs all \<open>maxiter\<close> iterations without the tolerance rule ever
  holding, it issues a NonConvergedWarning. On the run below all seven iterations are run,
  the rule fails at index 6, the only index above 5, and no warning is issued.
\<close>

theorem fit_warning_counterexample:
  "fit (toy_co 1) toy_m toy_y toy_x [[0]] toy_w (Some [1]) False 7 (1 / 1000) None 1 =
     Inr (fit_return (toy_state
       [Some 0, Some 2, Some 4, Some 6, Some 8, Some 10, Some 12] 7 (Some [1]))) \<and>
   \<not> lagged_rule (1 / 1000) [Some 0, Some 2, Some 4, Some 6, Some 8, Some 10, Some 12] 6 \<and>
   NonConvergedWarning \<notin> set (res_warnings (fit_return (toy_state
       [Some 0, Some 2, Some 4, Some 6, Some 8, Some 10, Some 12] 7 (Some [1]))))"
  using toy_fit_growing by (simp add: lagged_rule_def fit_return_def)

text \<open>
  C8, amended. When \<open>fit\<close> returns and the lagged rule holds at no index of the returned
  trace, it has run the body \<open>maxiter\<close> times, every entry of the trace is a
  log-likelihood, and it has issued no warning: the trace and the parameters come back as
  after an early stop.
\<close>

theorem fit_runs_out_silently:
  assumes "fit co m y x A w pi0 fis maxiter tol sess B = Inr r"
    and "\<forall>j < nat maxiter. \<not> lagged_rule tol (res_lls r) j"
  shows "res_warnings r = [] \<and>
    (\<exists>st0 stF. fit_start co m x A w pi0 (nat maxiter) = Inr st0 \<and>
       run_iters co y x fis (fit_sess m sess) B 0 (nat maxiter) st0 = Inr stF \<and>
       r = fit_return stF) \<and>
    (\<forall>i < nat maxiter. res_lls r ! i \<noteq> None)"
proof -
  from fit_Inr [OF assms(1)] obtain st0 cnt stF where
    s: "fit_start co m x A w pi0 (nat maxiter) = Inr st0" and c: "cnt \<le> nat maxiter"
    and run: "run_iters co y x fis (fit_sess m sess) B 0 cnt st0 = Inr stF"
    and r: "r = fit_return stF"
    and last: "cnt < nat maxiter \<longrightarrow> 0 < cnt \<and> lagged_rule tol (st_lls stF) (cnt - 1)"
    by blast
  have lls: "res_lls r = st_lls stF" using r by (simp add: fit_return_def)
  have full: "cnt = nat maxiter"
  proof (rule ccontr)
    assume "cnt \<noteq> nat maxiter"
    with c have lt: "cnt < nat maxiter" by simp
    with last have "0 < cnt" "lagged_rule tol (res_lls r) (cnt - 1)" by (simp_all add: lls)
    moreover have "cnt - 1 < nat maxiter" using lt by simp
    ultimately show False using assms(2) by blast
  qed
  have "\<forall>i < nat maxiter. res_lls r ! i \<noteq> None"
  proof (intro allI impI)
    fix i assume i: "i < nat maxiter"
    have "cnt \<le> length (st_lls st0)" using c fit_start_state [OF s] by simp
    from run_iters_entry [OF run _ this, of i] i full show "res_lls r ! i \<noteq> None"
      by (auto simp: lls)
  qed
  moreover have "res_warnings r = []" using r by (simp add: fit_return_def)
  ultimately show ?thesis using s run r full by blast
qed

theorem fit_runs_out_silently_witness:
  "fit (toy_co 1) toy_m toy_y toy_x [[0]] toy_w (Some [1]) False 7 (1 / 1000) None 1 =
     Inr (fit_return (toy_state
       [Some 0, Some 2, Some 4, Some 6, Some 8, Some 10, Some 12] 7 (Some [1]))) \<and>
   \<not> lagged_rule (1 / 1000) (res_lls (fit_return (toy_state
       [Some 0, Some 2, Some 4, Some 6, Some 8, Some 10, Some 12] 7 (Some [1])))) 6 \<and>
   res_warnings (fit_return (toy_state
       [Some 0, Some 2, Some 4, Some 6, Some 8, Some 10, Some 12] 7 (Some [1]))) = [] \<and>
   (\<exists>st0 stF.
      fit_start (toy_co 1) toy_m toy_x [[0]] toy_w (Some [1]) (nat 7) = Inr st0 \<and>
      run_iters (toy_co 1) toy_y toy_x False (fit_sess toy_m None) 1 0 (nat 7) st0 = Inr stF \<and>
      fit_return (toy_state
        [Some 0, Some 2, Some 4, Some 6, Some 8, Some 10, Some 12] 7 (Some [1])) =
      fit_return stF) \<and>
   res_lls (fit_return (toy_state
       [Some 0, Some 2, Some 4, Some 6, Some 8, Some 10, Some 12] 7 (Some [1]))) ! 6 \<noteq> None"
proof -
  let ?r = "fit_return
    (toy_state [Some 0, Some 2, Some 4, Some 6, Some 8, Some 10, Some 12] 7 (Some [1]))"
  have never: "\<forall>j < nat 7. \<not> lagged_rule (1 / 1000) (res_lls ?r) j"
    using toy_growing_rule by (simp add: fit_return_def toy_state_def)
  have six: "\<not> lagged_rule (1 / 1000) (res_lls ?r) 6" using never by simp
  from fit_runs_out_silently [OF toy_fit_growing never] have
    w: "res_warnings ?r = []"
    and run: "\<exists>st0 stF.
      fit_start (toy_co 1) toy_m toy_x [[0]] toy_w (Some [1]) (nat 7) = Inr st0 \<and>
      run_iters (toy_co 1) toy_y toy_x False (fit_sess toy_m None) 1 0 (nat 7) st0 = Inr stF \<and>
      ?r = fit_return stF"
    and filled: "\<forall>i < nat 7. res_lls ?r ! i \<noteq> None"
    by blast+
  have last: "res_lls ?r ! 6 \<noteq> None" using filled by simp
  show ?thesis
    by (intro conjI) (fact toy_fit_growing six w run last)+
qed

subsection \<open>The initial distribution\<close>

lemma obs_loop_pi0: "obs_loop co x w yy gammas zks m = Inr m' \<Longrightarrow> obj_pi0 m' = obj_pi0 m"
proof (induction zks arbitrary: m)
  case Nil
  then show ?case by simp
next
  case (Cons zk zks)
  from Cons.prems obtain m1 where
    "obs_loop co x w yy gammas zks m1 = Inr m'" "obj_pi0 m1 = obj_pi0 m"
    by (auto simp: ebind_def split: if_splits sum.splits prod.splits)
  with Cons.IH show ?case by simp
qed

lemma updateObservations_pi0:
  "updateObservations co m y x w gammas = Inr m' \<Longrightarrow> obj_pi0 m' = obj_pi0 m"
  by (auto simp: updateObservations_def dest!: ebind_Inr obs_loop_pi0)

lemma updateParams_fixed:
  "updateParams co m y x gammas beta alpha cs A phi w False = Inr (A', w', phi', pi0', m') \<Longrightarrow>
   pi0' = obj_pi0 m \<and> obj_pi0 m' = obj_pi0 m \<and>
   updateTransitions co y alpha beta cs A phi = Inr A' \<and>
   updateObservations co m y x w gammas = Inr m' \<and> w' = obj_w m'"
  by (auto simp: updateParams_def dest!: ebind_Inr dest: updateObservations_pi0)

lemma em_iteration_fixed:
  assumes "em_iteration co y x False sess B i st = Inr (ll, st')"
  shows "st_pi0 st' = obj_pi0 (st_self st) \<and> obj_pi0 (st_self st') = obj_pi0 (st_self st) \<and>
    (\<exists>e. estep co (st_self st) y (st_A st) (st_phi st) (st_pi0 st) sess B = Inr e \<and>
       updateTransitions co y (es_alpha e) (es_beta e) (es_cs e) (st_A st) (st_phi st) =
         Inr (st_A st') \<and>
       updateObservations co (st_self st) y x (st_w st) (es_pBack e) = Inr (st_self st') \<and>
       st_w st' = obj_w (st_self st'))"
proof -
  from em_iteration_estep [OF assms] obtain e where
    e: "estep co (st_self st) y (st_A st) (st_phi st) (st_pi0 st) sess B = Inr e"
    and u: "updateParams co (st_self st) y x (es_pBack e) (es_beta e) (es_alpha e) (es_cs e)
       (st_A st) (st_phi st) (st_w st) False =
     Inr (st_A st', st_w st', st_phi st', st_pi0 st', st_self st')"
    by blast
  from updateParams_fixed [OF u] e show ?thesis by blast
qed

lemma run_iters_fixed:
  "run_iters co y x False sess B i cnt st = Inr st' \<Longrightarrow> st_pi0 st = obj_pi0 (st_self st) \<Longrightarrow>
   st_pi0 st' = st_pi0 st \<and> obj_pi0 (st_self st') = st_pi0 st"
proof (induction cnt arbitrary: i st)
  case 0
  then show ?case by simp
next
  case (Suc cnt)
  from Suc.prems(1) obtain ll st1 where
    e: "em_iteration co y x False sess B i st = Inr (ll, st1)"
    and r: "run_iters co y x False sess B (Suc i) cnt st1 = Inr st'"
    by (auto split: sum.splits prod.splits)
  from em_iteration_fixed [OF e] Suc.prems(2) have
    one: "st_pi0 st1 = st_pi0 st" "obj_pi0 (st_self st1) = st_pi0 st"
    by simp_all
  from Suc.IH [OF r] one show ?case by simp
qed

text \<open>
  C9. When \<open>fit\<close> is called with \<open>fit_init_states\<close> false and returns, the \<open>pi0\<close> it returns
  is the \<open>pi0\<close> it was given. In every iteration it ran, \<open>pi0\<close> is the given one before
  and after, while the new \<open>A\<close> is the result of \<open>_updateTransitions\<close> and the new \<open>w\<close> is the
  \<open>self.w\<close> that \<open>_updateObservations\<close> leaves.
\<close>

theorem fit_keeps_pi0:
  assumes "fit co m y x A w pi0 False maxiter tol sess B = Inr r"
  shows "res_pi0 r = pi0 \<and>
    (\<exists>st0 cnt stF.
       fit_start co m x A w pi0 (nat maxiter) = Inr st0 \<and>
       run_iters co y x False (fit_sess m sess) B 0 cnt st0 = Inr stF \<and> r = fit_return stF \<and>
       (\<forall>i < cnt. \<exists>st1 ll st2 e.
          run_iters co y x False (fit_sess m sess) B 0 i st0 = Inr st1 \<and>
          em_iteration co y x False (fit_sess m sess) B i st1 = Inr (ll, st2) \<and>
          st_pi0 st1 = pi0 \<and> st_pi0 st2 = pi0 \<and>
          estep co (st_self st1) y (st_A st1) (st_phi st1) (st_pi0 st1) (fit_sess m sess) B =
            Inr e \<and>
          updateTransitions co y (es_alpha e) (es_beta e) (es_cs e) (st_A st1) (st_phi st1) =
            Inr (st_A st2) \<and>
          updateObservations co (st_self st1) y x (st_w st1) (es_pBack e) = Inr (st_self st2) \<and>
          st_w st2 = obj_w (st_self st2)))"
proof -
  from fit_Inr [OF assms] obtain st0 cnt stF where
    s: "fit_start co m x A w pi0 (nat maxiter) = Inr st0" and c: "cnt \<le> nat maxiter"
    and run: "run_iters co y x False (fit_sess m sess) B 0 cnt st0 = Inr stF"
    and r: "r = fit_return stF"
    by blast
  have start: "st_pi0 st0 = pi0" "obj_pi0 (st_self st0) = pi0"
    "st_lls st0 = replicate (nat maxiter) None"
    using fit_start_state [OF s] by simp_all
  have "st_pi0 stF = pi0" using run_iters_fixed [OF run] start by simp
  then have ret: "res_pi0 r = pi0" using r by (simp add: fit_return_def)
  have "\<forall>i < cnt. \<exists>st1 ll st2 e.
      run_iters co y x False (fit_sess m sess) B 0 i st0 = Inr st1 \<and>
      em_iteration co y x False (fit_sess m sess) B i st1 = Inr (ll, st2) \<and>
      st_pi0 st1 = pi0 \<and> st_pi0 st2 = pi0 \<and>
      estep co (st_self st1) y (st_A st1) (st_phi st1) (st_pi0 st1) (fit_sess m sess) B =
        Inr e \<and>
      updateTransitions co y (es_alpha e) (es_beta e) (es_cs e) (st_A st1) (st_phi st1) =
        Inr (st_A st2) \<and>
      updateObservations co (st_self st1) y x (st_w st1) (es_pBack e) = Inr (st_self st2) \<and>
      st_w st2 = obj_w (st_self st2)"
  proof (intro allI impI)
    fix i assume i: "i < cnt"
    have "cnt \<le> length (st_lls st0)" using c start(3) by simp
    from run_iters_entry [OF run i this] obtain st1 ll st2 where
      p: "run_iters co y x False (fit_sess m sess) B 0 i st0 = Inr st1"
      and e: "em_iteration co y x False (fit_sess m sess) B i st1 = Inr (ll, st2)"
      by blast
    have one: "st_pi0 st1 = pi0" "obj_pi0 (st_self st1) = pi0"
      using run_iters_fixed [OF p] start by simp_all
    from em_iteration_fixed [OF e] one obtain e' where
      "st_pi0 st2 = pi0"
      "estep co (st_self st1) y (st_A st1) (st_phi st1) (st_pi0 st1) (fit_sess m sess) B = Inr e'"
      "updateTransitions co y (es_alpha e') (es_beta e') (es_cs e') (st_A st1) (st_phi st1) =
        Inr (st_A st2)"
      "updateObservations co (st_self st1) y x (st_w st1) (es_pBack e') = Inr (st_self st2)"
      "st_w st2 = obj_w (st_self st2)"
      by auto
    with p e one(1) show "\<exists>st1 ll st2 e.
      run_iters co y x False (fit_sess m sess) B 0 i st0 = Inr st1 \<and>
      em_iteration co y x False (fit_sess m sess) B i st1 = Inr (ll, st2) \<and>
      st_pi0 st1 = pi0 \<and> st_pi0 st2 = pi0 \<and>
      estep co (st_self st1) y (st_A st1) (st_phi st1) (st_pi0 st1) (fit_sess m sess) B =
        Inr e \<and>
      updateTransitions co y (es_alpha e) (es_beta e) (es_cs e) (st_A st1) (st_phi st1) =
        Inr (st_A st2) \<and>
      updateObservations co (st_self st1) y x (st_w st1) (es_pBack e) = Inr (st_self st2) \<and>
      st_w st2 = obj_w (st_self st2)"
      by blast
  qed
  with ret s run r show ?thesis by blast
qed

theorem fit_keeps_pi0_witness:
  "fit (toy_co 1) toy_m toy_y toy_x [[0]] toy_w (Some [1]) False 7 (1 / 1000) None 1 =
     Inr (fit_return (toy_state
       [Some 0, Some 2, Some 4, Some 6, Some 8, Some 10, Some 12] 7 (Some [1]))) \<and>
   res_pi0 (fit_return (toy_state
       [Some 0, Some 2, Some 4, Some 6, Some 8, Some 10, Some 12] 7 (Some [1]))) = Some [1] \<and>
   res_A (fit_return (toy_state
       [Some 0, Some 2, Some 4, Some 6, Some 8, Some 10, Some 12] 7 (Some [1]))) = [[7]]"
  using fit_keeps_pi0 [OF toy_fit_growing] toy_fit_growing
  by (simp add: fit_return_def toy_state_def)

subsection \<open>The E-step over the sessions\<close>

lemma broadcast_vec_length: "broadcast_vec len v = Inr v' \<Longrightarrow> length v' = len"
  by (auto simp: broadcast_vec_def split: if_splits)

lemma broadcast_rows_length: "broadcast_rows len width v = Inr v' \<Longrightarrow> length v' = len"
  by (auto simp: broadcast_rows_def dest!: ebind_Inr sequence_err_length broadcast_vec_length)

lemma splice_length:
  "length v = hi - lo \<Longrightarrow> lo \<le> length arr \<Longrightarrow> hi \<le> length arr \<Longrightarrow>
   length (splice lo (hi - lo) v arr) = length arr"
  by (auto simp: splice_def)

lemma splice_below: "t < lo \<Longrightarrow> lo \<le> length arr \<Longrightarrow> splice lo len v arr ! t = arr ! t"
  by (simp add: splice_def nth_append)

lemma splice_slice:
  "length v = hi - lo \<Longrightarrow> lo \<le> length arr \<Longrightarrow> take (hi - lo) (drop lo (splice lo (hi - lo) v arr)) = v"
  by (simp add: splice_def)

lemma slice_bound_le: "slice_bound len i \<le> len"
  by (auto simp: slice_bound_def)

lemma slice_bound_ok: "0 \<le> i \<Longrightarrow> i \<le> int len \<Longrightarrow> slice_bound len i = nat i"
  by (simp add: slice_bound_def)

lemma assign_vec_Inr:
  "assign_vec a b v arr = Inr arr' \<Longrightarrow>
   \<exists>v'. broadcast_vec (slice_bound (length arr) b - slice_bound (length arr) a) v = Inr v' \<and>
        arr' = splice (slice_bound (length arr) a)
                 (slice_bound (length arr) b - slice_bound (length arr) a) v' arr"
  by (auto simp: assign_vec_def Let_def dest!: ebind_Inr)

lemma assign_mat_Inr:
  "assign_mat width a b v arr = Inr arr' \<Longrightarrow>
   \<exists>v'. broadcast_rows (slice_bound (length arr) b - slice_bound (length arr) a) width v = Inr v' \<and>
        arr' = splice (slice_bound (length arr) a)
                 (slice_bound (length arr) b - slice_bound (length arr) a) v' arr"
  by (auto simp: assign_mat_def Let_def dest!: ebind_Inr)

lemma session_step_fields:
  assumes "session_step co m y A phi pi0 sess B s acc = Inr acc'"
    and "lens_ok len acc"
  shows "\<exists>ll_s alpha_s cs_s pBack_s beta_s zh_s va vc vp vb vz.
    session_forward co y A phi pi0 sess s = Inr (ll_s, alpha_s, cs_s) \<and>
    session_backward co y A phi sess s alpha_s cs_s = Inr (pBack_s, beta_s, zh_s) \<and>
    es_ll acc' = es_ll acc + ll_s \<and>
    broadcast_rows (slice_bound len (sess ! Suc s) - slice_bound len (sess ! s)) (dim_k m) alpha_s = Inr va \<and>
    es_alpha acc' = splice (slice_bound len (sess ! s)) (slice_bound len (sess ! Suc s) - slice_bound len (sess ! s)) va (es_alpha acc) \<and>
    broadcast_vec (slice_bound len (sess ! Suc s) - slice_bound len (sess ! s)) cs_s = Inr vc \<and>
    es_cs acc' = splice (slice_bound len (sess ! s)) (slice_bound len (sess ! Suc s) - slice_bound len (sess ! s)) vc (es_cs acc) \<and>
    broadcast_rows (slice_bound len (sess ! Suc s) - slice_bound len (sess ! s)) (dim_k m)
       (map (map (\<lambda>p. np_power p B)) pBack_s) = Inr vp \<and>
    es_pBack acc' = splice (slice_bound len (sess ! s)) (slice_bound len (sess ! Suc s) - slice_bound len (sess ! s)) vp (es_pBack acc) \<and>
    broadcast_rows (slice_bound len (sess ! Suc s) - slice_bound len (sess ! s)) (dim_k m) beta_s = Inr vb \<and>
    es_beta acc' = splice (slice_bound len (sess ! s)) (slice_bound len (sess ! Suc s) - slice_bound len (sess ! s)) vb (es_beta acc) \<and>
    broadcast_vec (slice_bound len (sess ! Suc s) - slice_bound len (sess ! s)) zh_s = Inr vz \<and>
    es_zhatBack acc' = splice (slice_bound len (sess ! s)) (slice_bound len (sess ! Suc s) - slice_bound len (sess ! s)) vz (es_zhatBack acc)"
  using assms
  unfolding session_step_def Let_def lens_ok_def
  by (auto dest!: ebind_Inr assign_vec_Inr assign_mat_Inr)

lemma splice_length2:
  "length arr = len \<Longrightarrow> length v = slice_bound len b - slice_bound len a \<Longrightarrow>
   length (splice (slice_bound len a) (slice_bound len b - slice_bound len a) v arr) = len"
  using slice_bound_le [of len a] slice_bound_le [of len b]
  by (auto simp: splice_def)

lemma session_step_lens:
  assumes "session_step co m y A phi pi0 sess B s acc = Inr acc'" and "lens_ok len acc"
  shows "lens_ok len acc'"
proof -
  from session_step_fields [OF assms] obtain alpha_s cs_s pBack_s beta_s zh_s va vc vp vb vz where
    va: "broadcast_rows (slice_bound len (sess ! Suc s) - slice_bound len (sess ! s)) (dim_k m) alpha_s = Inr va"
    and ea: "es_alpha acc' = splice (slice_bound len (sess ! s)) (slice_bound len (sess ! Suc s) - slice_bound len (sess ! s)) va (es_alpha acc)"
    and vc: "broadcast_vec (slice_bound len (sess ! Suc s) - slice_bound len (sess ! s)) cs_s = Inr vc"
    and ec: "es_cs acc' = splice (slice_bound len (sess ! s)) (slice_bound len (sess ! Suc s) - slice_bound len (sess ! s)) vc (es_cs acc)"
    and vp: "broadcast_rows (slice_bound len (sess ! Suc s) - slice_bound len (sess ! s)) (dim_k m)
       (map (map (\<lambda>p. np_power p B)) pBack_s) = Inr vp"
    and ep: "es_pBack acc' = splice (slice_bound len (sess ! s)) (slice_bound len (sess ! Suc s) - slice_bound len (sess ! s)) vp (es_pBack acc)"
    and vb: "broadcast_rows (slice_bound len (sess ! Suc s) - slice_bound len (sess ! s)) (dim_k m) beta_s = Inr vb"
    and eb: "es_beta acc' = splice (slice_bound len (sess ! s)) (slice_bound len (sess ! Suc s) - slice_bound len (sess ! s)) vb (es_beta acc)"
    and vz: "broadcast_vec (slice_bound len (sess ! Suc s) - slice_bound len (sess ! s)) zh_s = Inr vz"
    and ez: "es_zhatBack acc' = splice (slice_bound len (sess ! s)) (slice_bound len (sess ! Suc s) - slice_bound len (sess ! s)) vz (es_zhatBack acc)"
    by blast
  have "length (es_alpha acc') = len"
    unfolding ea using assms(2) broadcast_rows_length [OF va]
    by (intro splice_length2) (simp_all add: lens_ok_def)
  moreover have "length (es_cs acc') = len"
    unfolding ec using assms(2) broadcast_vec_length [OF vc]
    by (intro splice_length2) (simp_all add: lens_ok_def)
  moreover have "length (es_pBack acc') = len"
    unfolding ep using assms(2) broadcast_rows_length [OF vp]
    by (intro splice_length2) (simp_all add: lens_ok_def)
  moreover have "length (es_beta acc') = len"
    unfolding eb using assms(2) broadcast_rows_length [OF vb]
    by (intro splice_length2) (simp_all add: lens_ok_def)
  moreover have "length (es_zhatBack acc') = len"
    unfolding ez using assms(2) broadcast_vec_length [OF vz]
    by (intro splice_length2) (simp_all add: lens_ok_def)
  ultimately show ?thesis by (simp add: lens_ok_def)
qed

lemma session_step_below:
  assumes "session_step co m y A phi pi0 sess B s acc = Inr acc'" and "lens_ok len acc"
    and "t < slice_bound len (sess ! s)"
  shows "es_alpha acc' ! t = es_alpha acc ! t \<and> es_cs acc' ! t = es_cs acc ! t \<and>
    es_pBack acc' ! t = es_pBack acc ! t \<and> es_beta acc' ! t = es_beta acc ! t \<and>
    es_zhatBack acc' ! t = es_zhatBack acc ! t"
proof -
  have le: "slice_bound len (sess ! s) \<le> len" by (rule slice_bound_le)
  from session_step_fields [OF assms(1,2)] assms(2,3) le show ?thesis
    by (auto simp: lens_ok_def splice_below)
qed

lemma estep_loop_lens:
  "estep_loop co m y A phi pi0 sess B ss acc = Inr e \<Longrightarrow> lens_ok len acc \<Longrightarrow> lens_ok len e"
proof (induction ss arbitrary: acc)
  case Nil
  then show ?case by simp
next
  case (Cons s ss)
  from Cons.prems(1) obtain acc1 where
    s1: "session_step co m y A phi pi0 sess B s acc = Inr acc1"
    and r: "estep_loop co m y A phi pi0 sess B ss acc1 = Inr e"
    by (auto split: sum.splits)
  show ?case by (rule Cons.IH [OF r session_step_lens [OF s1 Cons.prems(2)]])
qed

lemma estep_loop_below:
  "estep_loop co m y A phi pi0 sess B ss acc = Inr e \<Longrightarrow> lens_ok len acc \<Longrightarrow>
   \<forall>s \<in> set ss. t < slice_bound len (sess ! s) \<Longrightarrow>
   es_alpha e ! t = es_alpha acc ! t \<and> es_cs e ! t = es_cs acc ! t \<and>
   es_pBack e ! t = es_pBack acc ! t \<and> es_beta e ! t = es_beta acc ! t \<and>
   es_zhatBack e ! t = es_zhatBack acc ! t"
proof (induction ss arbitrary: acc)
  case Nil
  then show ?case by simp
next
  case (Cons s ss)
  from Cons.prems(1) obtain acc1 where
    s1: "session_step co m y A phi pi0 sess B s acc = Inr acc1"
    and r: "estep_loop co m y A phi pi0 sess B ss acc1 = Inr e"
    by (auto split: sum.splits)
  have t: "t < slice_bound len (sess ! s)" using Cons.prems(3) by simp
  have rest: "\<forall>s \<in> set ss. t < slice_bound len (sess ! s)" using Cons.prems(3) by simp
  show ?case
    using Cons.IH [OF r session_step_lens [OF s1 Cons.prems(2)] rest]
      session_step_below [OF s1 Cons.prems(2) t]
    by simp
qed


lemma slice_eq:
  "length xs = length ys \<Longrightarrow> \<forall>t<hi. xs ! t = ys ! t \<Longrightarrow> hi \<le> length xs \<Longrightarrow>
   take (hi - lo) (drop lo xs) = take (hi - lo) (drop lo ys)"
  by (auto intro!: nth_equalityI)

lemma py_slice_in_range:
  "0 \<le> a \<Longrightarrow> a \<le> int (length xs) \<Longrightarrow> 0 \<le> b \<Longrightarrow> b \<le> int (length xs) \<Longrightarrow>
   py_slice a b xs = take (nat b - nat a) (drop (nat a) xs)"
  by (simp add: py_slice_def slice_bound_ok Let_def)

lemma sessions_ok_nth:
  "sessions_ok len sess \<Longrightarrow> i < length sess \<Longrightarrow> 0 \<le> sess ! i \<and> sess ! i \<le> int len"
  by (simp add: sessions_ok_def)

lemma sessions_ok_mono:
  "sessions_ok len sess \<Longrightarrow> i \<le> j \<Longrightarrow> j < length sess \<Longrightarrow> sess ! i \<le> sess ! j"
  by (simp add: sessions_ok_def sorted_nth_mono)

text \<open>
  After the loop over the sessions, the rows of session \<open>s\<close> in each array are what the
  two passes of that session returned (broadcast to the shape of the slice), when the
  boundaries are in order and within range.
\<close>

lemma estep_loop_session:
  assumes "estep_loop co m y A phi pi0 sess B ss acc = Inr e"
    and "lens_ok len acc" and ok: "sessions_ok len sess"
    and "sorted_wrt (<) ss" and "\<forall>s \<in> set ss. Suc s < length sess" and "s \<in> set ss"
  shows "\<exists>ll_s alpha_s cs_s pBack_s beta_s zh_s.
         session_forward co y A phi pi0 sess s = Inr (ll_s, alpha_s, cs_s) \<and>
         session_backward co y A phi sess s alpha_s cs_s = Inr (pBack_s, beta_s, zh_s) \<and>
         broadcast_rows (nat (sess ! Suc s) - nat (sess ! s)) (dim_k m) alpha_s =
           Inr (py_slice (sess ! s) (sess ! Suc s) (es_alpha e)) \<and>
         broadcast_vec (nat (sess ! Suc s) - nat (sess ! s)) cs_s =
           Inr (py_slice (sess ! s) (sess ! Suc s) (es_cs e)) \<and>
         broadcast_rows (nat (sess ! Suc s) - nat (sess ! s)) (dim_k m)
             (map (map (\<lambda>p. np_power p B)) pBack_s) =
           Inr (py_slice (sess ! s) (sess ! Suc s) (es_pBack e)) \<and>
         broadcast_rows (nat (sess ! Suc s) - nat (sess ! s)) (dim_k m) beta_s =
           Inr (py_slice (sess ! s) (sess ! Suc s) (es_beta e)) \<and>
         broadcast_vec (nat (sess ! Suc s) - nat (sess ! s)) zh_s =
           Inr (py_slice (sess ! s) (sess ! Suc s) (es_zhatBack e))"
  using assms(1,2,4,5,6)
proof (induction ss arbitrary: acc)
  case Nil
  then show ?case by simp
next
  case (Cons s0 ss)
  from Cons.prems(1) obtain acc1 where
    s1: "session_step co m y A phi pi0 sess B s0 acc = Inr acc1"
    and r: "estep_loop co m y A phi pi0 sess B ss acc1 = Inr e"
    by (auto split: sum.splits)
  have lens1: "lens_ok len acc1" by (rule session_step_lens [OF s1 Cons.prems(2)])
  have lense: "lens_ok len e" by (rule estep_loop_lens [OF r lens1])
  show ?case
  proof (cases "s = s0")
    case False
    with Cons.prems have "s \<in> set ss" "sorted_wrt (<) ss" "\<forall>s \<in> set ss. Suc s < length sess"
      by simp_all
    from Cons.IH [OF r lens1 this(2,3,1)] show ?thesis .
  next
    case True
    have sl: "Suc s < length sess" using Cons.prems(4) True by simp
    have a0: "0 \<le> sess ! s" "sess ! s \<le> int len"
      using sessions_ok_nth [OF ok, of s] sl by simp_all
    have b0: "0 \<le> sess ! Suc s" "sess ! Suc s \<le> int len"
      using sessions_ok_nth [OF ok sl] by simp_all
    have lo: "slice_bound len (sess ! s) = nat (sess ! s)" by (rule slice_bound_ok [OF a0])
    have hi: "slice_bound len (sess ! Suc s) = nat (sess ! Suc s)" by (rule slice_bound_ok [OF b0])
    have hile: "nat (sess ! Suc s) \<le> len" using b0 by simp
    have lole: "nat (sess ! s) \<le> len" using a0 by simp
    have s1': "session_step co m y A phi pi0 sess B s acc = Inr acc1" using s1 True by simp
    from session_step_fields [OF s1' Cons.prems(2)]
    obtain ll_s alpha_s cs_s pBack_s beta_s zh_s va vc vp vb vz where
      f: "session_forward co y A phi pi0 sess s = Inr (ll_s, alpha_s, cs_s)"
      and b: "session_backward co y A phi sess s alpha_s cs_s = Inr (pBack_s, beta_s, zh_s)"
      and va: "broadcast_rows (nat (sess ! Suc s) - nat (sess ! s)) (dim_k m) alpha_s = Inr va"
      and ea: "es_alpha acc1 = splice (nat (sess ! s)) (nat (sess ! Suc s) - nat (sess ! s)) va (es_alpha acc)"
      and vc: "broadcast_vec (nat (sess ! Suc s) - nat (sess ! s)) cs_s = Inr vc"
      and ec: "es_cs acc1 = splice (nat (sess ! s)) (nat (sess ! Suc s) - nat (sess ! s)) vc (es_cs acc)"
      and vp: "broadcast_rows (nat (sess ! Suc s) - nat (sess ! s)) (dim_k m)
         (map (map (\<lambda>p. np_power p B)) pBack_s) = Inr vp"
      and ep: "es_pBack acc1 = splice (nat (sess ! s)) (nat (sess ! Suc s) - nat (sess ! s)) vp (es_pBack acc)"
      and vb: "broadcast_rows (nat (sess ! Suc s) - nat (sess ! s)) (dim_k m) beta_s = Inr vb"
      and eb: "es_beta acc1 = splice (nat (sess ! s)) (nat (sess ! Suc s) - nat (sess ! s)) vb (es_beta acc)"
      and vz: "broadcast_vec (nat (sess ! Suc s) - nat (sess ! s)) zh_s = Inr vz"
      and ez: "es_zhatBack acc1 = splice (nat (sess ! s)) (nat (sess ! Suc s) - nat (sess ! s)) vz (es_zhatBack acc)"
      unfolding lo hi by auto
    have later: "\<forall>s' \<in> set ss. nat (sess ! Suc s) \<le> slice_bound len (sess ! s')"
    proof
      fix s' assume s': "s' \<in> set ss"
      then have lt: "s < s'" and l': "Suc s' < length sess"
        using Cons.prems(3,4) True by auto
      have "sess ! Suc s \<le> sess ! s'"
        using sessions_ok_mono [OF ok, of "Suc s" s'] lt l' by simp
      moreover have "slice_bound len (sess ! s') = nat (sess ! s')"
        using sessions_ok_nth [OF ok, of s'] l' by (intro slice_bound_ok) simp_all
      ultimately show "nat (sess ! Suc s) \<le> slice_bound len (sess ! s')" by simp
    qed
    have keep: "\<forall>t < nat (sess ! Suc s).
      es_alpha e ! t = es_alpha acc1 ! t \<and> es_cs e ! t = es_cs acc1 ! t \<and>
      es_pBack e ! t = es_pBack acc1 ! t \<and> es_beta e ! t = es_beta acc1 ! t \<and>
      es_zhatBack e ! t = es_zhatBack acc1 ! t"
    proof (intro allI impI)
      fix t assume t: "t < nat (sess ! Suc s)"
      have "\<forall>s' \<in> set ss. t < slice_bound len (sess ! s')"
        using later t by fastforce
      from estep_loop_below [OF r lens1 this]
      show "es_alpha e ! t = es_alpha acc1 ! t \<and> es_cs e ! t = es_cs acc1 ! t \<and>
        es_pBack e ! t = es_pBack acc1 ! t \<and> es_beta e ! t = es_beta acc1 ! t \<and>
        es_zhatBack e ! t = es_zhatBack acc1 ! t" .
    qed
    have lens0: "length (es_alpha acc) = len" "length (es_cs acc) = len"
      "length (es_pBack acc) = len" "length (es_beta acc) = len" "length (es_zhatBack acc) = len"
      using Cons.prems(2) by (simp_all add: lens_ok_def)
    have lens1': "length (es_alpha acc1) = len" "length (es_cs acc1) = len"
      "length (es_pBack acc1) = len" "length (es_beta acc1) = len" "length (es_zhatBack acc1) = len"
      using lens1 by (simp_all add: lens_ok_def)
    have lense': "length (es_alpha e) = len" "length (es_cs e) = len"
      "length (es_pBack e) = len" "length (es_beta e) = len" "length (es_zhatBack e) = len"
      using lense by (simp_all add: lens_ok_def)
    have "py_slice (sess ! s) (sess ! Suc s) (es_alpha e) = va"
    proof -
      have "py_slice (sess ! s) (sess ! Suc s) (es_alpha e) =
            take (nat (sess ! Suc s) - nat (sess ! s)) (drop (nat (sess ! s)) (es_alpha e))"
        using a0 b0 lense' by (intro py_slice_in_range) simp_all
      also have "\<dots> = take (nat (sess ! Suc s) - nat (sess ! s)) (drop (nat (sess ! s)) (es_alpha acc1))"
        using keep hile lense' lens1' by (intro slice_eq) simp_all
      also have "\<dots> = va"
        unfolding ea using broadcast_rows_length [OF va] lole lens0 by (intro splice_slice) simp_all
      finally show ?thesis .
    qed
    moreover have "py_slice (sess ! s) (sess ! Suc s) (es_cs e) = vc"
    proof -
      have "py_slice (sess ! s) (sess ! Suc s) (es_cs e) =
            take (nat (sess ! Suc s) - nat (sess ! s)) (drop (nat (sess ! s)) (es_cs e))"
        using a0 b0 lense' by (intro py_slice_in_range) simp_all
      also have "\<dots> = take (nat (sess ! Suc s) - nat (sess ! s)) (drop (nat (sess ! s)) (es_cs acc1))"
        using keep hile lense' lens1' by (intro slice_eq) simp_all
      also have "\<dots> = vc"
        unfolding ec using broadcast_vec_length [OF vc] lole lens0 by (intro splice_slice) simp_all
      finally show ?thesis .
    qed
    moreover have "py_slice (sess ! s) (sess ! Suc s) (es_pBack e) = vp"
    proof -
      have "py_slice (sess ! s) (sess ! Suc s) (es_pBack e) =
            take (nat (sess ! Suc s) - nat (sess ! s)) (drop (nat (sess ! s)) (es_pBack e))"
        using a0 b0 lense' by (intro py_slice_in_range) simp_all
      also have "\<dots> = take (nat (sess ! Suc s) - nat (sess ! s)) (drop (nat (sess ! s)) (es_pBack acc1))"
        using keep hile lense' lens1' by (intro slice_eq) simp_all
      also have "\<dots> = vp"
        unfolding ep using broadcast_rows_length [OF vp] lole lens0 by (intro splice_slice) simp_all
      finally show ?thesis .
    qed
    moreover have "py_slice (sess ! s) (sess ! Suc s) (es_beta e) = vb"
    proof -
      have "py_slice (sess ! s) (sess ! Suc s) (es_beta e) =
            take (nat (sess ! Suc s) - nat (sess ! s)) (drop (nat (sess ! s)) (es_beta e))"
        using a0 b0 lense' by (intro py_slice_in_range) simp_all
      also have "\<dots> = take (nat (sess ! Suc s) - nat (sess ! s)) (drop (nat (sess ! s)) (es_beta acc1))"
        using keep hile lense' lens1' by (intro slice_eq) simp_all
      also have "\<dots> = vb"
        unfolding eb using broadcast_rows_length [OF vb] lole lens0 by (intro splice_slice) simp_all
      finally show ?thesis .
    qed
    moreover have "py_slice (sess ! s) (sess ! Suc s) (es_zhatBack e) = vz"
    proof -
      have "py_slice (sess ! s) (sess ! Suc s) (es_zhatBack e) =
            take (nat (sess ! Suc s) - nat (sess ! s)) (drop (nat (sess ! s)) (es_zhatBack e))"
        using a0 b0 lense' by (intro py_slice_in_range) simp_all
      also have "\<dots> = take (nat (sess ! Suc s) - nat (sess ! s)) (drop (nat (sess ! s)) (es_zhatBack acc1))"
        using keep hile lense' lens1' by (intro slice_eq) simp_all
      also have "\<dots> = vz"
        unfolding ez using broadcast_vec_length [OF vz] lole lens0 by (intro splice_slice) simp_all
      finally show ?thesis .
    qed
    ultimately show ?thesis using f b va vc vp vb vz by simp
  qed
qed

lemma lens_ok_init: "lens_ok (dim_n m) (estep_init m)"
  by (simp add: lens_ok_def estep_init_def)

lemma estep_session:
  assumes "estep co m y A phi pi0 sess B = Inr e" and "sessions_ok (dim_n m) sess"
    and "Suc s < length sess"
  shows "\<exists>ll_s alpha_s cs_s pBack_s beta_s zh_s.
         session_forward co y A phi pi0 sess s = Inr (ll_s, alpha_s, cs_s) \<and>
         session_backward co y A phi sess s alpha_s cs_s = Inr (pBack_s, beta_s, zh_s) \<and>
         broadcast_rows (nat (sess ! Suc s) - nat (sess ! s)) (dim_k m) alpha_s =
           Inr (py_slice (sess ! s) (sess ! Suc s) (es_alpha e)) \<and>
         broadcast_vec (nat (sess ! Suc s) - nat (sess ! s)) cs_s =
           Inr (py_slice (sess ! s) (sess ! Suc s) (es_cs e)) \<and>
         broadcast_rows (nat (sess ! Suc s) - nat (sess ! s)) (dim_k m)
             (map (map (\<lambda>p. np_power p B)) pBack_s) =
           Inr (py_slice (sess ! s) (sess ! Suc s) (es_pBack e)) \<and>
         broadcast_rows (nat (sess ! Suc s) - nat (sess ! s)) (dim_k m) beta_s =
           Inr (py_slice (sess ! s) (sess ! Suc s) (es_beta e)) \<and>
         broadcast_vec (nat (sess ! Suc s) - nat (sess ! s)) zh_s =
           Inr (py_slice (sess ! s) (sess ! Suc s) (es_zhatBack e))"
proof -
  have loop: "estep_loop co m y A phi pi0 sess B [0..<length sess - 1] (estep_init m) = Inr e"
    using assms(1) by (simp add: estep_def)
  have inc: "sorted_wrt (<) [0..<length sess - 1]" by simp
  have rng: "\<forall>s \<in> set [0..<length sess - 1]. Suc s < length sess" by auto
  have mem: "s \<in> set [0..<length sess - 1]" using assms(3) by auto
  show ?thesis
    by (rule estep_loop_session [OF loop lens_ok_init assms(2) inc rng mem])
qed


text \<open>A value that already has the shape of the slice is stored as it is.\<close>

lemma broadcast_vec_same: "length v = len \<Longrightarrow> broadcast_vec len v = Inr v"
  by (simp add: broadcast_vec_def)

lemma sequence_err_same: "\<forall>v \<in> set vs. f v = Inr v \<Longrightarrow> sequence_err (map f vs) = Inr vs"
  by (induction vs) simp_all

lemma broadcast_rows_same:
  "length v = len \<Longrightarrow> \<forall>row \<in> set v. length row = width \<Longrightarrow> broadcast_rows len width v = Inr v"
  by (simp add: broadcast_rows_def broadcast_vec_same ebind_def sequence_err_same)

lemma np_power_one: "np_power p 1 = p"
  by (simp add: np_power_def)

subsection \<open>The calls of the regression solve\<close>

lemma set_state_length:
  "length v = length phi \<Longrightarrow> length (set_state zk v phi) = length phi"
  by (simp add: set_state_def)

lemma set_state_rows:
  "\<forall>p \<in> set phi. j < length p \<Longrightarrow> \<forall>p \<in> set (set_state zk v phi). j < length p"
  by (auto simp: set_state_def set_zip)

lemma set_state_other:
  "length v = length phi \<Longrightarrow> j \<noteq> zk \<Longrightarrow>
   map (\<lambda>p. p ! j) (set_state zk v phi) = map (\<lambda>p. p ! j) phi"
  by (auto simp: set_state_def intro!: nth_equalityI)

lemma set_state_same:
  "length v = length phi \<Longrightarrow> \<forall>p \<in> set phi. zk < length p \<Longrightarrow>
   map (\<lambda>p. p ! zk) (set_state zk v phi) = v"
  by (auto simp: set_state_def intro!: nth_equalityI)

text \<open>One pass of the loop over the states, taken apart.\<close>

lemma obs_loop_Cons:
  assumes "obs_loop co x w yy gammas (zk # zks) m = Inr m'"
  shows "\<exists>w_new phi_new w_zk phi_zk.
    zk < length w \<and> zk < length (obj_w m) \<and>
    glm_fit co x (w ! zk) yy (hessian m) (column gammas zk) (gaussianPrior m) =
      Inr (w_new, phi_new) \<and>
    broadcast_rows (dim_d m) (dim_c m) w_new = Inr w_zk \<and>
    broadcast_rows (dim_n m) (dim_c m) phi_new = Inr phi_zk \<and>
    obs_loop co x w yy gammas zks
      (m\<lparr>obj_w := (obj_w m)[zk := w_zk], obj_phi := set_state zk phi_zk (obj_phi m)\<rparr>) = Inr m'"
  using assms
  by (auto simp: ebind_def split: if_splits sum.splits prod.splits)

text \<open>
  The loop leaves the dimensions and the options of the object alone, and it leaves alone
  the weights and the emission probabilities of the states it does not visit.
\<close>

lemma obs_loop_frame:
  "obs_loop co x w yy gammas zks m = Inr m' \<Longrightarrow> length (obj_phi m) = dim_n m \<Longrightarrow>
   dim_n m' = dim_n m \<and> dim_d m' = dim_d m \<and> dim_c m' = dim_c m \<and> dim_k m' = dim_k m \<and>
   hessian m' = hessian m \<and> gaussianPrior m' = gaussianPrior m \<and>
   length (obj_phi m') = dim_n m \<and>
   (\<forall>j. j \<notin> set zks \<longrightarrow>
      obj_w m' ! j = obj_w m ! j \<and>
      map (\<lambda>p. p ! j) (obj_phi m') = map (\<lambda>p. p ! j) (obj_phi m))"
proof (induction zks arbitrary: m)
  case Nil
  then show ?case by simp
next
  case (Cons zk zks)
  from obs_loop_Cons [OF Cons.prems(1)] obtain w_new phi_new w_zk phi_zk where
    pz: "broadcast_rows (dim_n m) (dim_c m) phi_new = Inr phi_zk"
    and r: "obs_loop co x w yy gammas zks
      (m\<lparr>obj_w := (obj_w m)[zk := w_zk], obj_phi := set_state zk phi_zk (obj_phi m)\<rparr>) = Inr m'"
    by blast
  let ?m1 = "m\<lparr>obj_w := (obj_w m)[zk := w_zk], obj_phi := set_state zk phi_zk (obj_phi m)\<rparr>"
  have lz: "length phi_zk = length (obj_phi m)"
    using broadcast_rows_length [OF pz] Cons.prems(2) by simp
  have len1: "length (obj_phi ?m1) = dim_n ?m1"
    using set_state_length [OF lz] Cons.prems(2) by simp
  from Cons.IH [OF r len1] have
    ih: "dim_n m' = dim_n m \<and> dim_d m' = dim_d m \<and> dim_c m' = dim_c m \<and> dim_k m' = dim_k m \<and>
      hessian m' = hessian m \<and> gaussianPrior m' = gaussianPrior m \<and>
      length (obj_phi m') = dim_n m"
    and rest: "\<forall>j. j \<notin> set zks \<longrightarrow>
      obj_w m' ! j = obj_w ?m1 ! j \<and>
      map (\<lambda>p. p ! j) (obj_phi m') = map (\<lambda>p. p ! j) (obj_phi ?m1)"
    by simp_all
  have "\<forall>j. j \<notin> set (zk # zks) \<longrightarrow>
      obj_w m' ! j = obj_w m ! j \<and>
      map (\<lambda>p. p ! j) (obj_phi m') = map (\<lambda>p. p ! j) (obj_phi m)"
  proof (intro allI impI)
    fix j assume j: "j \<notin> set (zk # zks)"
    then have jz: "j \<noteq> zk" and jr: "j \<notin> set zks" by simp_all
    from rest jr have "obj_w m' ! j = obj_w ?m1 ! j"
      "map (\<lambda>p. p ! j) (obj_phi m') = map (\<lambda>p. p ! j) (obj_phi ?m1)"
      by simp_all
    moreover have "obj_w ?m1 ! j = obj_w m ! j" using jz by simp
    moreover have "map (\<lambda>p. p ! j) (obj_phi ?m1) = map (\<lambda>p. p ! j) (obj_phi m)"
      using set_state_other [OF lz jz] by simp
    ultimately show "obj_w m' ! j = obj_w m ! j \<and>
      map (\<lambda>p. p ! j) (obj_phi m') = map (\<lambda>p. p ! j) (obj_phi m)"
      by simp
  qed
  with ih show ?case by simp
qed

text \<open>
  For every state the loop visits, \<open>glm.fit\<close> was called with the weights of that state,
  the one-hot matrix and the column of the responsibilities of that state, and its two
  results are the weights and the emission probabilities of the state in the object.
\<close>

lemma obs_loop_calls:
  "obs_loop co x w yy gammas zks m = Inr m' \<Longrightarrow> distinct zks \<Longrightarrow> zk \<in> set zks \<Longrightarrow>
   length (obj_phi m) = dim_n m \<Longrightarrow> \<forall>p \<in> set (obj_phi m). zk < length p \<Longrightarrow>
   \<exists>w_new phi_new.
     glm_fit co x (w ! zk) yy (hessian m) (column gammas zk) (gaussianPrior m) =
       Inr (w_new, phi_new) \<and>
     broadcast_rows (dim_d m) (dim_c m) w_new = Inr (obj_w m' ! zk) \<and>
     broadcast_rows (dim_n m) (dim_c m) phi_new = Inr (map (\<lambda>p. p ! zk) (obj_phi m'))"
proof (induction zks arbitrary: m)
  case Nil
  then show ?case by simp
next
  case (Cons z zs)
  from obs_loop_Cons [OF Cons.prems(1)] obtain w_new phi_new w_z phi_z where
    zw: "z < length (obj_w m)"
    and call: "glm_fit co x (w ! z) yy (hessian m) (column gammas z) (gaussianPrior m) =
      Inr (w_new, phi_new)"
    and wz: "broadcast_rows (dim_d m) (dim_c m) w_new = Inr w_z"
    and pz: "broadcast_rows (dim_n m) (dim_c m) phi_new = Inr phi_z"
    and r: "obs_loop co x w yy gammas zs
      (m\<lparr>obj_w := (obj_w m)[z := w_z], obj_phi := set_state z phi_z (obj_phi m)\<rparr>) = Inr m'"
    by blast
  let ?m1 = "m\<lparr>obj_w := (obj_w m)[z := w_z], obj_phi := set_state z phi_z (obj_phi m)\<rparr>"
  have lz: "length phi_z = length (obj_phi m)"
    using broadcast_rows_length [OF pz] Cons.prems(4) by simp
  have len1: "length (obj_phi ?m1) = dim_n ?m1"
    using set_state_length [OF lz] Cons.prems(4) by simp
  have rows1: "\<forall>p \<in> set (obj_phi ?m1). zk < length p"
    using set_state_rows [OF Cons.prems(5)] by simp
  show ?case
  proof (cases "zk = z")
    case True
    have notin: "z \<notin> set zs" using Cons.prems(2) by simp
    from obs_loop_frame [OF r len1] notin have
      "obj_w m' ! z = obj_w ?m1 ! z"
      "map (\<lambda>p. p ! z) (obj_phi m') = map (\<lambda>p. p ! z) (obj_phi ?m1)"
      by simp_all
    moreover have "obj_w ?m1 ! z = w_z" using zw by simp
    moreover have "map (\<lambda>p. p ! z) (obj_phi ?m1) = phi_z"
      using set_state_same [OF lz] Cons.prems(5) True by simp
    ultimately show ?thesis using call wz pz True by auto
  next
    case False
    with Cons.prems(2,3) have d: "distinct zs" and mem: "zk \<in> set zs" by simp_all
    from Cons.IH [OF r d mem len1 rows1] show ?thesis by simp
  qed
qed

lemma updateObservations_calls:
  assumes "updateObservations co m y x w gammas = Inr m'" and "zk < dim_k m"
  shows "\<exists>yy w_new phi_new.
     one_hot y = Inr yy \<and>
     glm_fit co x (w ! zk) yy (hessian m) (column gammas zk) (gaussianPrior m) =
       Inr (w_new, phi_new) \<and>
     broadcast_rows (dim_d m) (dim_c m) w_new = Inr (obj_w m' ! zk) \<and>
     broadcast_rows (dim_n m) (dim_c m) phi_new = Inr (map (\<lambda>p. p ! zk) (obj_phi m'))"
proof -
  let ?m0 = "m\<lparr>obj_phi := replicate (dim_n m) (replicate (dim_k m) (replicate (dim_c m) 0))\<rparr>"
  from assms(1) obtain yy where
    oh: "one_hot y = Inr yy"
    and loop: "obs_loop co x w yy gammas [0..<dim_k m] ?m0 = Inr m'"
    by (auto simp: updateObservations_def dest!: ebind_Inr)
  have len: "length (obj_phi ?m0) = dim_n ?m0" by simp
  have rows: "\<forall>p \<in> set (obj_phi ?m0). zk < length p" using assms(2) by simp
  have mem: "zk \<in> set [0..<dim_k m]" using assms(2) by simp
  from obs_loop_calls [OF loop _ mem len rows] oh show ?thesis by auto
qed

subsection \<open>The E-step and the M-step of an iteration\<close>



lemma estep_session_explicit:
  assumes "estep co m y A phi pi0 sess B = Inr e"
  shows "sessions_ok (dim_n m) sess \<longrightarrow>
    (\<forall>s. Suc s < length sess \<longrightarrow>
       (\<exists>ll_s alpha_s cs_s pBack_s beta_s zh_s.
          forwardPass co (py_slice (sess ! s) (sess ! Suc s) y) A
              (py_slice (sess ! s) (sess ! Suc s) phi) pi0 =
            Inr (ll_s, alpha_s, cs_s) \<and>
          backwardPass co (py_slice (sess ! s) (sess ! Suc s) y) A
              (py_slice (sess ! s) (sess ! Suc s) phi) alpha_s cs_s =
            Inr (pBack_s, beta_s, zh_s) \<and>
          broadcast_rows (nat (sess ! Suc s) - nat (sess ! s)) (dim_k m) alpha_s =
            Inr (py_slice (sess ! s) (sess ! Suc s) (es_alpha e)) \<and>
          broadcast_vec (nat (sess ! Suc s) - nat (sess ! s)) cs_s =
            Inr (py_slice (sess ! s) (sess ! Suc s) (es_cs e)) \<and>
          broadcast_rows (nat (sess ! Suc s) - nat (sess ! s)) (dim_k m)
              (map (map (\<lambda>p. if B = of_int \<lfloor>B\<rfloor> then p powi \<lfloor>B\<rfloor> else p powr B)) pBack_s) =
            Inr (py_slice (sess ! s) (sess ! Suc s) (es_pBack e)) \<and>
          broadcast_rows (nat (sess ! Suc s) - nat (sess ! s)) (dim_k m) beta_s =
            Inr (py_slice (sess ! s) (sess ! Suc s) (es_beta e)) \<and>
          broadcast_vec (nat (sess ! Suc s) - nat (sess ! s)) zh_s =
            Inr (py_slice (sess ! s) (sess ! Suc s) (es_zhatBack e))))"
proof (intro impI allI)
  fix s assume ok: "sessions_ok (dim_n m) sess" and s: "Suc s < length sess"
  have sf: "\<And>s. session_forward co y A phi pi0 sess s =
      forwardPass co (py_slice (sess ! s) (sess ! Suc s) y) A
        (py_slice (sess ! s) (sess ! Suc s) phi) pi0"
    by (simp add: session_forward_def)
  have sb: "\<And>s a c. session_backward co y A phi sess s a c =
      backwardPass co (py_slice (sess ! s) (sess ! Suc s) y) A
        (py_slice (sess ! s) (sess ! Suc s) phi) a c"
    by (simp add: session_backward_def)
  have pw: "(\<lambda>p. np_power p B) = (\<lambda>p. if B = of_int \<lfloor>B\<rfloor> then p powi \<lfloor>B\<rfloor> else p powr B)"
    by (rule ext) (simp add: np_power_def)
  from estep_session [OF assms ok s]
  show "\<exists>ll_s alpha_s cs_s pBack_s beta_s zh_s.
          forwardPass co (py_slice (sess ! s) (sess ! Suc s) y) A
              (py_slice (sess ! s) (sess ! Suc s) phi) pi0 =
            Inr (ll_s, alpha_s, cs_s) \<and>
          backwardPass co (py_slice (sess ! s) (sess ! Suc s) y) A
              (py_slice (sess ! s) (sess ! Suc s) phi) alpha_s cs_s =
            Inr (pBack_s, beta_s, zh_s) \<and>
          broadcast_rows (nat (sess ! Suc s) - nat (sess ! s)) (dim_k m) alpha_s =
            Inr (py_slice (sess ! s) (sess ! Suc s) (es_alpha e)) \<and>
          broadcast_vec (nat (sess ! Suc s) - nat (sess ! s)) cs_s =
            Inr (py_slice (sess ! s) (sess ! Suc s) (es_cs e)) \<and>
          broadcast_rows (nat (sess ! Suc s) - nat (sess ! s)) (dim_k m)
              (map (map (\<lambda>p. if B = of_int \<lfloor>B\<rfloor> then p powi \<lfloor>B\<rfloor> else p powr B)) pBack_s) =
            Inr (py_slice (sess ! s) (sess ! Suc s) (es_pBack e)) \<and>
          broadcast_rows (nat (sess ! Suc s) - nat (sess ! s)) (dim_k m) beta_s =
            Inr (py_slice (sess ! s) (sess ! Suc s) (es_beta e)) \<and>
          broadcast_vec (nat (sess ! Suc s) - nat (sess ! s)) zh_s =
            Inr (py_slice (sess ! s) (sess ! Suc s) (es_zhatBack e))"
    unfolding sf sb pw .
qed

text \<open>
  The power of numpy is the power of the reals: \<open>p ^ n\<close> for a natural exponent, its
  inverse for a negative integer (\<open>powi\<close>), and \<open>p powr B\<close> for an exponent that is not an integer.
\<close>

lemma np_power_int: "np_power p (of_int j) = p powi j"
  by (simp add: np_power_def)

lemma np_power_nat: "np_power p (real n) = p ^ n"
  by (simp add: np_power_def power_int_def)

lemma np_power_powr:
  assumes "B \<notin> \<int>"
  shows "np_power p B = p powr B"
proof -
  have "B \<noteq> of_int \<lfloor>B\<rfloor>"
  proof
    assume "B = of_int \<lfloor>B\<rfloor>"
    then have "B \<in> \<int>" by (metis Ints_of_int)
    with assms show False by simp
  qed
  then show ?thesis by (simp add: np_power_def)
qed

text \<open>
  What a successful M-step did with the responsibilities: the regression solve of every
  state got the column of that state, and the update of the initial distribution got
  the whole array when it is fitted.
\<close>

lemma updateParams_calls:
  assumes "updateParams co m y x gammas beta alpha cs A phi w fis = Inr (A', w', phi', pi0', m')"
  shows "\<exists>yy. one_hot y = Inr yy \<and>
    (\<forall>zk < dim_k m. \<exists>w_new phi_new.
       glm_fit co x (w ! zk) yy (hessian m) (column gammas zk) (gaussianPrior m) =
         Inr (w_new, phi_new) \<and>
       broadcast_rows (dim_d m) (dim_c m) w_new = Inr (w' ! zk)) \<and>
    (fis \<longrightarrow> (\<exists>p. updateInitStates co gammas = Inr p \<and> pi0' = Some p))"
proof -
  from assms obtain m1 where
    u: "updateObservations co m y x w gammas = Inr m1"
    and w': "w' = obj_w m1"
    and init: "fis \<longrightarrow> (\<exists>p. updateInitStates co gammas = Inr p \<and> pi0' = Some p)"
    by (auto simp: updateParams_def split: if_splits dest!: ebind_Inr)
  from u obtain yy where oh: "one_hot y = Inr yy"
    by (auto simp: updateObservations_def dest!: ebind_Inr)
  have "\<forall>zk < dim_k m. \<exists>w_new phi_new.
       glm_fit co x (w ! zk) yy (hessian m) (column gammas zk) (gaussianPrior m) =
         Inr (w_new, phi_new) \<and>
       broadcast_rows (dim_d m) (dim_c m) w_new = Inr (w' ! zk)"
  proof (intro allI impI)
    fix zk assume "zk < dim_k m"
    from updateObservations_calls [OF u this] oh w'
    show "\<exists>w_new phi_new.
       glm_fit co x (w ! zk) yy (hessian m) (column gammas zk) (gaussianPrior m) =
         Inr (w_new, phi_new) \<and>
       broadcast_rows (dim_d m) (dim_c m) w_new = Inr (w' ! zk)"
      by auto
  qed
  with oh init show ?thesis by blast
qed

text \<open>The iteration of the second set of collaborators, with two sessions and \<open>B = 2\<close>.\<close>

lemma toy2_estep:
  "estep toy_co2 (toy_m\<lparr>obj_pi0 := None\<rparr>) toy_y [[3]] toy_phi None [0, 1, 2] 2 =
     Inr \<lparr>es_ll = 9, es_alpha = [[1], [1]], es_beta = [[1], [1]], es_cs = [1, 1],
          es_pBack = [[1 / 4], [9 / 16]], es_zhatBack = [0, 0]\<rparr>"
  by (simp add: estep_def estep_init_def session_step_def session_forward_def
      session_backward_def toy_co2_def toy_m_def toy_phi_def toy_y_def py_slice_def
      slice_bound_def ebind_def assign_mat_def assign_vec_def broadcast_rows_def
      broadcast_vec_def splice_def np_power_def Let_def upt_rec power2_eq_square)

lemma toy2_mstep:
  "updateParams toy_co2 (toy_m\<lparr>obj_pi0 := None\<rparr>) toy_y toy_x [[1 / 4], [9 / 16]]
     [[1], [1]] [[1], [1]] [1, 1] [[3]] toy_phi toy_w False =
     Inr ([[3]], [[[13 / 16, 2]]], toy_phi, None, toy_m\<lparr>obj_w := [[[13 / 16, 2]]]\<rparr>)"
  by (simp add: updateParams_def updateObservations_def toy_one_hot ebind_def toy_co2_def
      toy_m_def toy_phi_def toy_x_def toy_w_def broadcast_rows_def broadcast_vec_def
      set_state_def column_def numeral_2_eq_2)

lemma toy2_iteration:
  "em_iteration toy_co2 toy_y toy_x False [0, 1, 2] 2 0 (toy_state [None, None] 3 None) =
     Inr (9, toy_after)"
  by (simp add: em_iteration_def toy_state_def toy_after_def toy2_estep toy2_mstep ebind_def
      Let_def)



text \<open>
  C4. In an iteration, the M-step is called with the array \<open>pBack\<close> of the E-step as its
  responsibilities: \<open>_updateParams\<close> gets it, \<open>glm.fit\<close> gets its column of state \<open>zk\<close> for
  the new weights of that state, and \<open>_updateInitStates\<close> gets it when the initial
  distribution is fitted. The E-step is computed from the parameters as they are before
  that call. When the boundaries are in order and within \<open>[0, n]\<close>, the rows of session
  \<open>s\<close> in that array are the posteriors that \<open>backwardPass\<close> returned on the slices of the
  session, each raised to the power \<open>B\<close>: \<open>p powi B\<close> for an integer \<open>B\<close> (\<open>p ^ n\<close> for a
  natural number \<open>n\<close>), \<open>p powr B\<close> otherwise; with \<open>B = 1\<close> they are those posteriors
  unchanged.
\<close>

theorem responsibilities_are_powered_posteriors:
  assumes "em_iteration co y x fis sess B i st = Inr (ll, st')"
  shows "\<exists>e yy.
    estep co (st_self st) y (st_A st) (st_phi st) (st_pi0 st) sess B = Inr e \<and>
    updateParams co (st_self st) y x (es_pBack e) (es_beta e) (es_alpha e) (es_cs e)
        (st_A st) (st_phi st) (st_w st) fis =
      Inr (st_A st', st_w st', st_phi st', st_pi0 st', st_self st') \<and>
    one_hot y = Inr yy \<and>
    (\<forall>zk < dim_k (st_self st). \<exists>w_new phi_new.
       glm_fit co x (st_w st ! zk) yy (hessian (st_self st)) (column (es_pBack e) zk)
           (gaussianPrior (st_self st)) = Inr (w_new, phi_new) \<and>
       broadcast_rows (dim_d (st_self st)) (dim_c (st_self st)) w_new = Inr (st_w st' ! zk)) \<and>
    (fis \<longrightarrow> (\<exists>p. updateInitStates co (es_pBack e) = Inr p \<and> st_pi0 st' = Some p)) \<and>
    (sessions_ok (dim_n (st_self st)) sess \<longrightarrow>
       (\<forall>s. Suc s < length sess \<longrightarrow>
          (\<exists>ll_s alpha_s cs_s pBack_s beta_s zh_s.
             forwardPass co (py_slice (sess ! s) (sess ! Suc s) y) (st_A st)
                  (py_slice (sess ! s) (sess ! Suc s) (st_phi st)) (st_pi0 st) =
               Inr (ll_s, alpha_s, cs_s) \<and>
             backwardPass co (py_slice (sess ! s) (sess ! Suc s) y) (st_A st)
                  (py_slice (sess ! s) (sess ! Suc s) (st_phi st)) alpha_s cs_s =
               Inr (pBack_s, beta_s, zh_s) \<and>
             broadcast_rows (nat (sess ! Suc s) - nat (sess ! s)) (dim_k (st_self st))
                 (map (map (\<lambda>p. if B = of_int \<lfloor>B\<rfloor> then p powi \<lfloor>B\<rfloor> else p powr B)) pBack_s) =
               Inr (py_slice (sess ! s) (sess ! Suc s) (es_pBack e)) \<and>
             (\<forall>n. B = real n \<longrightarrow>
                broadcast_rows (nat (sess ! Suc s) - nat (sess ! s)) (dim_k (st_self st))
                    (map (map (\<lambda>p. p ^ n)) pBack_s) =
                  Inr (py_slice (sess ! s) (sess ! Suc s) (es_pBack e))) \<and>
             (B = 1 \<longrightarrow>
                broadcast_rows (nat (sess ! Suc s) - nat (sess ! s)) (dim_k (st_self st)) pBack_s =
                  Inr (py_slice (sess ! s) (sess ! Suc s) (es_pBack e))))))"
proof -
  from em_iteration_estep [OF assms] obtain e where
    e: "estep co (st_self st) y (st_A st) (st_phi st) (st_pi0 st) sess B = Inr e"
    and u: "updateParams co (st_self st) y x (es_pBack e) (es_beta e) (es_alpha e) (es_cs e)
        (st_A st) (st_phi st) (st_w st) fis =
      Inr (st_A st', st_w st', st_phi st', st_pi0 st', st_self st')"
    by blast
  from updateParams_calls [OF u] obtain yy where
    oh: "one_hot y = Inr yy"
    and calls: "\<forall>zk < dim_k (st_self st). \<exists>w_new phi_new.
       glm_fit co x (st_w st ! zk) yy (hessian (st_self st)) (column (es_pBack e) zk)
           (gaussianPrior (st_self st)) = Inr (w_new, phi_new) \<and>
       broadcast_rows (dim_d (st_self st)) (dim_c (st_self st)) w_new = Inr (st_w st' ! zk)"
    and init: "fis \<longrightarrow> (\<exists>p. updateInitStates co (es_pBack e) = Inr p \<and> st_pi0 st' = Some p)"
    by blast
  have rows: "sessions_ok (dim_n (st_self st)) sess \<longrightarrow>
       (\<forall>s. Suc s < length sess \<longrightarrow>
          (\<exists>ll_s alpha_s cs_s pBack_s beta_s zh_s.
             forwardPass co (py_slice (sess ! s) (sess ! Suc s) y) (st_A st)
                  (py_slice (sess ! s) (sess ! Suc s) (st_phi st)) (st_pi0 st) =
               Inr (ll_s, alpha_s, cs_s) \<and>
             backwardPass co (py_slice (sess ! s) (sess ! Suc s) y) (st_A st)
                  (py_slice (sess ! s) (sess ! Suc s) (st_phi st)) alpha_s cs_s =
               Inr (pBack_s, beta_s, zh_s) \<and>
             broadcast_rows (nat (sess ! Suc s) - nat (sess ! s)) (dim_k (st_self st))
                 (map (map (\<lambda>p. if B = of_int \<lfloor>B\<rfloor> then p powi \<lfloor>B\<rfloor> else p powr B)) pBack_s) =
               Inr (py_slice (sess ! s) (sess ! Suc s) (es_pBack e)) \<and>
             (\<forall>n. B = real n \<longrightarrow>
                broadcast_rows (nat (sess ! Suc s) - nat (sess ! s)) (dim_k (st_self st))
                    (map (map (\<lambda>p. p ^ n)) pBack_s) =
                  Inr (py_slice (sess ! s) (sess ! Suc s) (es_pBack e))) \<and>
             (B = 1 \<longrightarrow>
                broadcast_rows (nat (sess ! Suc s) - nat (sess ! s)) (dim_k (st_self st)) pBack_s =
                  Inr (py_slice (sess ! s) (sess ! Suc s) (es_pBack e)))))"
  proof (intro impI allI)
    fix s assume ok: "sessions_ok (dim_n (st_self st)) sess" and s: "Suc s < length sess"
    from estep_session_explicit [OF e] ok s obtain ll_s alpha_s cs_s pBack_s beta_s zh_s where
      f: "forwardPass co (py_slice (sess ! s) (sess ! Suc s) y) (st_A st)
                  (py_slice (sess ! s) (sess ! Suc s) (st_phi st)) (st_pi0 st) =
           Inr (ll_s, alpha_s, cs_s)"
      and b: "backwardPass co (py_slice (sess ! s) (sess ! Suc s) y) (st_A st)
                  (py_slice (sess ! s) (sess ! Suc s) (st_phi st)) alpha_s cs_s =
           Inr (pBack_s, beta_s, zh_s)"
      and p: "broadcast_rows (nat (sess ! Suc s) - nat (sess ! s)) (dim_k (st_self st))
             (map (map (\<lambda>p. if B = of_int \<lfloor>B\<rfloor> then p powi \<lfloor>B\<rfloor> else p powr B)) pBack_s) =
           Inr (py_slice (sess ! s) (sess ! Suc s) (es_pBack e))"
      by blast
    have nat: "\<forall>n. B = real n \<longrightarrow>
        broadcast_rows (nat (sess ! Suc s) - nat (sess ! s)) (dim_k (st_self st))
            (map (map (\<lambda>p. p ^ n)) pBack_s) =
          Inr (py_slice (sess ! s) (sess ! Suc s) (es_pBack e))"
    proof (intro allI impI)
      fix n assume B: "B = real n"
      have "(map (map (\<lambda>p. if B = of_int \<lfloor>B\<rfloor> then p powi \<lfloor>B\<rfloor> else p powr B)) pBack_s) =
          map (map (\<lambda>p. p ^ n)) pBack_s"
        unfolding B by (simp add: power_int_def)
      with p show "broadcast_rows (nat (sess ! Suc s) - nat (sess ! s)) (dim_k (st_self st))
            (map (map (\<lambda>p. p ^ n)) pBack_s) =
          Inr (py_slice (sess ! s) (sess ! Suc s) (es_pBack e))"
        by simp
    qed
    have one: "B = 1 \<longrightarrow>
        broadcast_rows (nat (sess ! Suc s) - nat (sess ! s)) (dim_k (st_self st)) pBack_s =
          Inr (py_slice (sess ! s) (sess ! Suc s) (es_pBack e))"
    proof
      assume B: "B = 1"
      have "(map (map (\<lambda>p. if B = of_int \<lfloor>B\<rfloor> then p powi \<lfloor>B\<rfloor> else p powr B)) pBack_s) = pBack_s"
        unfolding B by simp
      with p show "broadcast_rows (nat (sess ! Suc s) - nat (sess ! s)) (dim_k (st_self st)) pBack_s =
          Inr (py_slice (sess ! s) (sess ! Suc s) (es_pBack e))"
        by simp
    qed
    from f b p nat one show "\<exists>ll_s alpha_s cs_s pBack_s beta_s zh_s.
             forwardPass co (py_slice (sess ! s) (sess ! Suc s) y) (st_A st)
                  (py_slice (sess ! s) (sess ! Suc s) (st_phi st)) (st_pi0 st) =
               Inr (ll_s, alpha_s, cs_s) \<and>
             backwardPass co (py_slice (sess ! s) (sess ! Suc s) y) (st_A st)
                  (py_slice (sess ! s) (sess ! Suc s) (st_phi st)) alpha_s cs_s =
               Inr (pBack_s, beta_s, zh_s) \<and>
             broadcast_rows (nat (sess ! Suc s) - nat (sess ! s)) (dim_k (st_self st))
                 (map (map (\<lambda>p. if B = of_int \<lfloor>B\<rfloor> then p powi \<lfloor>B\<rfloor> else p powr B)) pBack_s) =
               Inr (py_slice (sess ! s) (sess ! Suc s) (es_pBack e)) \<and>
             (\<forall>n. B = real n \<longrightarrow>
                broadcast_rows (nat (sess ! Suc s) - nat (sess ! s)) (dim_k (st_self st))
                    (map (map (\<lambda>p. p ^ n)) pBack_s) =
                  Inr (py_slice (sess ! s) (sess ! Suc s) (es_pBack e))) \<and>
             (B = 1 \<longrightarrow>
                broadcast_rows (nat (sess ! Suc s) - nat (sess ! s)) (dim_k (st_self st)) pBack_s =
                  Inr (py_slice (sess ! s) (sess ! Suc s) (es_pBack e)))"
      by blast
  qed
  show ?thesis
    by (intro exI [of _ e] exI [of _ yy] conjI) (fact e u oh calls init rows)+
qed

theorem responsibilities_are_powered_posteriors_witness:
  "em_iteration toy_co2 toy_y toy_x False [0, 1, 2] 2 0 (toy_state [None, None] 3 None) = Inr (9, toy_after) \<and>
   sessions_ok (dim_n (st_self (toy_state [None, None] 3 None))) [0, 1, 2] \<and>
   (2 :: real) = real 2 \<and>
   backwardPass toy_co2 (py_slice 0 1 toy_y) [[3]] (py_slice 0 1 toy_phi) [[1]] [1] =
     Inr ([[1 / 2]], [[1]], [0]) \<and>
   backwardPass toy_co2 (py_slice 1 2 toy_y) [[3]] (py_slice 1 2 toy_phi) [[1]] [1] =
     Inr ([[3 / 4]], [[1]], [0]) \<and>
   estep toy_co2 (st_self (toy_state [None, None] 3 None)) toy_y [[3]] toy_phi None [0, 1, 2] 2 =
     Inr \<lparr>es_ll = 9, es_alpha = [[1], [1]], es_beta = [[1], [1]], es_cs = [1, 1],
          es_pBack = [[(1 / 2) ^ 2], [(3 / 4) ^ 2]], es_zhatBack = [0, 0]\<rparr> \<and>
   glm_fit toy_co2 toy_x (toy_w ! 0) [[1, 0], [0, 1]] False [(1 / 2) ^ 2, (3 / 4) ^ 2] 0 =
     Inr ([[13 / 16, 2]], [[1 / 2, 1 / 2], [1 / 2, 1 / 2]]) \<and>
   st_w toy_after ! 0 = [[13 / 16, 2]] \<and>
   (\<exists>e yy.
    estep toy_co2 (st_self (toy_state [None, None] 3 None)) toy_y (st_A (toy_state [None, None] 3 None)) (st_phi (toy_state [None, None] 3 None)) (st_pi0 (toy_state [None, None] 3 None)) ([0, 1, 2] :: int list) (2 :: real) = Inr e \<and>
    updateParams toy_co2 (st_self (toy_state [None, None] 3 None)) toy_y toy_x (es_pBack e) (es_beta e) (es_alpha e) (es_cs e)
        (st_A (toy_state [None, None] 3 None)) (st_phi (toy_state [None, None] 3 None)) (st_w (toy_state [None, None] 3 None)) False =
      Inr (st_A toy_after, st_w toy_after, st_phi toy_after, st_pi0 toy_after, st_self toy_after) \<and>
    one_hot toy_y = Inr yy \<and>
    (\<forall>zk < dim_k (st_self (toy_state [None, None] 3 None)). \<exists>w_new phi_new.
       glm_fit toy_co2 toy_x (st_w (toy_state [None, None] 3 None) ! zk) yy (hessian (st_self (toy_state [None, None] 3 None))) (column (es_pBack e) zk)
           (gaussianPrior (st_self (toy_state [None, None] 3 None))) = Inr (w_new, phi_new) \<and>
       broadcast_rows (dim_d (st_self (toy_state [None, None] 3 None))) (dim_c (st_self (toy_state [None, None] 3 None))) w_new = Inr (st_w toy_after ! zk)) \<and>
    (False \<longrightarrow> (\<exists>p. updateInitStates toy_co2 (es_pBack e) = Inr p \<and> st_pi0 toy_after = Some p)) \<and>
    (sessions_ok (dim_n (st_self (toy_state [None, None] 3 None))) ([0, 1, 2] :: int list) \<longrightarrow>
       (\<forall>s. Suc s < length ([0, 1, 2] :: int list) \<longrightarrow>
          (\<exists>ll_s alpha_s cs_s pBack_s beta_s zh_s.
             forwardPass toy_co2 (py_slice (([0, 1, 2] :: int list) ! s) (([0, 1, 2] :: int list) ! Suc s) toy_y) (st_A (toy_state [None, None] 3 None))
                  (py_slice (([0, 1, 2] :: int list) ! s) (([0, 1, 2] :: int list) ! Suc s) (st_phi (toy_state [None, None] 3 None))) (st_pi0 (toy_state [None, None] 3 None)) =
               Inr (ll_s, alpha_s, cs_s) \<and>
             backwardPass toy_co2 (py_slice (([0, 1, 2] :: int list) ! s) (([0, 1, 2] :: int list) ! Suc s) toy_y) (st_A (toy_state [None, None] 3 None))
                  (py_slice (([0, 1, 2] :: int list) ! s) (([0, 1, 2] :: int list) ! Suc s) (st_phi (toy_state [None, None] 3 None))) alpha_s cs_s =
               Inr (pBack_s, beta_s, zh_s) \<and>
             broadcast_rows (nat (([0, 1, 2] :: int list) ! Suc s) - nat (([0, 1, 2] :: int list) ! s)) (dim_k (st_self (toy_state [None, None] 3 None)))
                 (map (map (\<lambda>p. if (2 :: real) = of_int \<lfloor>(2 :: real)\<rfloor> then p powi \<lfloor>(2 :: real)\<rfloor> else p powr (2 :: real))) pBack_s) =
               Inr (py_slice (([0, 1, 2] :: int list) ! s) (([0, 1, 2] :: int list) ! Suc s) (es_pBack e)) \<and>
             (\<forall>n. (2 :: real) = real n \<longrightarrow>
                broadcast_rows (nat (([0, 1, 2] :: int list) ! Suc s) - nat (([0, 1, 2] :: int list) ! s)) (dim_k (st_self (toy_state [None, None] 3 None)))
                    (map (map (\<lambda>p. p ^ n)) pBack_s) =
                  Inr (py_slice (([0, 1, 2] :: int list) ! s) (([0, 1, 2] :: int list) ! Suc s) (es_pBack e))) \<and>
             ((2 :: real) = 1 \<longrightarrow>
                broadcast_rows (nat (([0, 1, 2] :: int list) ! Suc s) - nat (([0, 1, 2] :: int list) ! s)) (dim_k (st_self (toy_state [None, None] 3 None))) pBack_s =
                  Inr (py_slice (([0, 1, 2] :: int list) ! s) (([0, 1, 2] :: int list) ! Suc s) (es_pBack e)))))))"
proof -
  have ok: "sessions_ok (dim_n (st_self (toy_state [None, None] 3 None))) [0, 1, 2]"
    by (simp add: sessions_ok_def toy_state_def toy_m_def)
  have two: "(2 :: real) = real 2" by simp
  have b0: "backwardPass toy_co2 (py_slice 0 1 toy_y) [[3]] (py_slice 0 1 toy_phi) [[1]] [1] =
     Inr ([[1 / 2]], [[1]], [0])"
    by (simp add: toy_co2_def toy_y_def toy_phi_def py_slice_def slice_bound_def)
  have b1: "backwardPass toy_co2 (py_slice 1 2 toy_y) [[3]] (py_slice 1 2 toy_phi) [[1]] [1] =
     Inr ([[3 / 4]], [[1]], [0])"
    by (simp add: toy_co2_def toy_y_def toy_phi_def py_slice_def slice_bound_def)
  have es: "estep toy_co2 (st_self (toy_state [None, None] 3 None)) toy_y [[3]] toy_phi None [0, 1, 2] 2 =
     Inr \<lparr>es_ll = 9, es_alpha = [[1], [1]], es_beta = [[1], [1]], es_cs = [1, 1],
          es_pBack = [[(1 / 2) ^ 2], [(3 / 4) ^ 2]], es_zhatBack = [0, 0]\<rparr>"
    using toy2_estep by (simp add: toy_state_def power2_eq_square)
  have g: "glm_fit toy_co2 toy_x (toy_w ! 0) [[1, 0], [0, 1]] False [(1 / 2) ^ 2, (3 / 4) ^ 2] 0 =
     Inr ([[13 / 16, 2]], [[1 / 2, 1 / 2], [1 / 2, 1 / 2]])"
    by (simp add: toy_co2_def toy_x_def power2_eq_square)
  have w: "st_w toy_after ! 0 = [[13 / 16, 2]]" by (simp add: toy_after_def)
  note result = responsibilities_are_powered_posteriors [OF toy2_iteration]
  show ?thesis
    by (intro conjI) (fact toy2_iteration ok two b0 b1 es g w result)+
qed

subsection \<open>The one-hot matrix of the M-step\<close>

lemma sequence_err_map_Inr:
  "\<forall>v \<in> set xs. f v = Inr (g v) \<Longrightarrow> sequence_err (map f xs) = Inr (map g xs)"
  by (induction xs) simp_all

text \<open>
  The loop over the states calls \<open>glm.fit\<close> with the one-hot matrix it was given and
  with no other: two solvers that agree on that matrix give the same loop.
\<close>

lemma obs_loop_solver:
  assumes "\<forall>xx ww h g gp. glm_fit co' xx ww yy h g gp = glm_fit co xx ww yy h g gp"
  shows "obs_loop co' x w yy gammas zks m = obs_loop co x w yy gammas zks m"
proof (induction zks arbitrary: m)
  case Nil
  show ?case by simp
next
  case (Cons zk zks)
  let ?next = "\<lambda>c (r :: matrix \<times> matrix).
      (case r of (w_new, phi_new) \<Rightarrow>
         if length (obj_w m) \<le> zk then Inl IndexError
         else ebind (broadcast_rows (dim_d m) (dim_c m) w_new) (\<lambda>w_zk.
              ebind (broadcast_rows (dim_n m) (dim_c m) phi_new) (\<lambda>phi_zk.
                obs_loop c x w yy gammas zks
                  (m\<lparr>obj_w := (obj_w m)[zk := w_zk],
                     obj_phi := set_state zk phi_zk (obj_phi m)\<rparr>))))"
  have body: "?next co' = ?next co"
    by (rule ext) (simp add: Cons.IH split: prod.splits)
  have "obs_loop co' x w yy gammas (zk # zks) m =
      (if length w \<le> zk then Inl IndexError
       else ebind (glm_fit co' x (w ! zk) yy (hessian m) (column gammas zk) (gaussianPrior m))
              (?next co'))"
    by simp
  also have "\<dots> =
      (if length w \<le> zk then Inl IndexError
       else ebind (glm_fit co x (w ! zk) yy (hessian m) (column gammas zk) (gaussianPrior m))
              (?next co))"
    unfolding body using assms by simp
  also have "\<dots> = obs_loop co x w yy gammas (zk # zks) m"
    by simp
  finally show ?case .
qed

text \<open>The cast and the sum on values that fit the 64-bit type.\<close>

lemma astype_int_nat: "astype_int (real n) = (if n < 2 ^ 63 then int n else - (2 ^ 63))"
proof -
  have "(int n < 2 ^ 63) = (n < 2 ^ 63)"
    using of_nat_less_iff [of n "2 ^ 63", where ?'a = int] by simp
  then show ?thesis by (simp add: astype_int_def py_int_def Let_def)
qed

lemma add_int64_small: "- (2 ^ 63) \<le> a \<Longrightarrow> a < 2 ^ 63 - 1 \<Longrightarrow> add_int64 a 1 = a + 1"
  by (simp add: add_int64_def)

text \<open>
  An observation that does not fit the 64-bit type: the cast gives the smallest integer,
  the number of columns is negative and the allocation of the matrix raises.
\<close>

lemma one_hot_out_of_range: "one_hot [10 ^ 19] = Inl ValueError"
proof -
  have "astype_int (10 ^ 19) = - (2 ^ 63)"
    using astype_int_nat [of "10 ^ 19"] by simp
  then show ?thesis by (simp add: one_hot_def add_int64_def Let_def)
qed

text \<open>
  C10. For a non-empty \<open>y\<close> of non-negative integers (that fit the 64-bit integers of
  \<open>y.astype(int)\<close>, with room for \<open>max(y) + 1\<close>), the one-hot matrix that
  \<open>_updateObservations\<close> builds has one row per observation and \<open>max(y) + 1\<close> columns,
  whatever \<open>c\<close> is; row \<open>t\<close> has a one in column \<open>y[t]\<close> and zeros elsewhere. It is the
  matrix of every regression solve: the update is the loop over the states run on it, it
  depends on \<open>glm.fit\<close> only through the calls with this matrix, and when the update
  returns, \<open>glm.fit\<close> has returned, for every state \<open>zk\<close>, on the weights of the state, this
  matrix and the column \<open>zk\<close> of the responsibilities, the weights and emission
  probabilities that the object then holds for \<open>zk\<close>. When all of \<open>y\<close> is below \<open>cc\<close> and
  \<open>cc - 1\<close> does not occur in it, the matrix has fewer than \<open>cc\<close> columns.
\<close>

theorem one_hot_columns:
  assumes "y \<noteq> []" and "set y \<subseteq> \<nat>" and "\<forall>v \<in> set y. v < 2 ^ 63 - 1"
  shows "\<exists>yy. one_hot y = Inr yy \<and> length yy = length y \<and>
    (\<forall>t < length y.
       real (length (yy ! t)) = Max (set y) + 1 \<and>
       (\<forall>j < length (yy ! t). yy ! t ! j = (if real j = y ! t then 1 else 0))) \<and>
    (\<forall>co m x w gammas.
       updateObservations co m y x w gammas =
       obs_loop co x w yy gammas [0..<dim_k m]
         (m\<lparr>obj_phi := replicate (dim_n m) (replicate (dim_k m) (replicate (dim_c m) 0))\<rparr>)) \<and>
    (\<forall>co co' m x w gammas.
       (\<forall>xx ww h g gp. glm_fit co' xx ww yy h g gp = glm_fit co xx ww yy h g gp) \<longrightarrow>
       updateObservations co' m y x w gammas = updateObservations co m y x w gammas) \<and>
    (\<forall>co m x w gammas m'.
       updateObservations co m y x w gammas = Inr m' \<longrightarrow>
       (\<forall>zk < dim_k m. \<exists>w_new phi_new.
          glm_fit co x (w ! zk) yy (hessian m) (column gammas zk) (gaussianPrior m) =
            Inr (w_new, phi_new) \<and>
          broadcast_rows (dim_d m) (dim_c m) w_new = Inr (obj_w m' ! zk) \<and>
          broadcast_rows (dim_n m) (dim_c m) phi_new = Inr (map (\<lambda>p. p ! zk) (obj_phi m')))) \<and>
    (\<forall>cc. (\<forall>v \<in> set y. v < real cc \<and> v \<noteq> real cc - 1) \<longrightarrow>
       (\<forall>t < length y. length (yy ! t) < cc))"
proof -
  note replicate.simps [simp del]
  have "\<forall>v \<in> set y. \<exists>n. v = real n" using assms(2) by (auto simp: Nats_def)
  then obtain ns where ns: "y = map real ns"
    by (metis ex_map_conv)
  have small: "\<And>n. n \<in> set ns \<Longrightarrow> n < 2 ^ 63 - 1"
  proof -
    fix n assume "n \<in> set ns"
    then have "real n < 2 ^ 63 - 1" using assms(3) ns by simp
    then have "real n < real (2 ^ 63 - 1)" by simp
    then show "n < 2 ^ 63 - 1" by (simp only: of_nat_less_iff)
  qed
  have nne: "ns \<noteq> []" using assms(1) ns by simp
  let ?mx = "Max (set ns)"
  have mx_in: "?mx \<in> set ns" using nne by (intro Max_in) simp_all
  have le_mx: "\<And>n. n \<in> set ns \<Longrightarrow> n \<le> ?mx" by (rule Max_ge) simp_all
  have mx_small: "?mx < 2 ^ 63 - 1" by (rule small [OF mx_in])
  have cast: "\<And>n. n \<in> set ns \<Longrightarrow> astype_int (real n) = int n"
    using small by (force simp: astype_int_nat)
  have yint: "map astype_int y = map int ns"
    unfolding ns using cast by simp
  have mxi: "Max (set (map int ns)) = int ?mx"
  proof (rule Max_eqI)
    show "finite (set (map int ns))" by simp
    show "\<And>j. j \<in> set (map int ns) \<Longrightarrow> j \<le> int ?mx" using le_mx by auto
    show "int ?mx \<in> set (map int ns)" using mx_in by simp
  qed
  have mxr: "Max (set y) = real ?mx"
  proof (rule Max_eqI)
    show "finite (set y)" by simp
    show "\<And>v. v \<in> set y \<Longrightarrow> v \<le> real ?mx" using le_mx ns by auto
    show "real ?mx \<in> set y" using mx_in ns by simp
  qed
  have "int ?mx < 2 ^ 63 - 1"
    using mx_small of_nat_less_iff [of ?mx "2 ^ 63 - 1", where ?'a = int] by simp
  then have cols: "add_int64 (int ?mx) 1 = int ?mx + 1"
    by (intro add_int64_small) simp_all
  let ?cols = "Suc ?mx"
  let ?row = "\<lambda>j. (replicate ?cols (0::real))[nat j := 1]"
  let ?yy = "map ?row (map int ns)"
  have rows: "\<forall>j \<in> set (map int ns). set_one ?cols j = Inr (?row j)"
  proof
    fix j assume "j \<in> set (map int ns)"
    then obtain n where n: "n \<in> set ns" "j = int n" by auto
    have "int n < 1 + int ?mx" using le_mx [OF n(1)] by simp
    with n show "set_one ?cols j = Inr (?row j)"
      by (simp add: set_one_def Let_def)
  qed
  have nc: "add_int64 (Max (set (map int ns))) 1 = int ?cols"
    using mxi cols by simp
  have "one_hot y = sequence_err (map (set_one ?cols) (map int ns))"
    unfolding one_hot_def yint Let_def nc using nne
    by (simp del: of_nat_Suc)
  also have "\<dots> = Inr ?yy" by (rule sequence_err_map_Inr [OF rows])
  finally have oh: "one_hot y = Inr ?yy" .
  have entries: "\<forall>t < length y.
       real (length (?yy ! t)) = Max (set y) + 1 \<and>
       (\<forall>j < length (?yy ! t). ?yy ! t ! j = (if real j = y ! t then 1 else 0))"
  proof (intro allI impI conjI)
    fix t assume t: "t < length y"
    then show "real (length (?yy ! t)) = Max (set y) + 1" using ns mxr by simp
  next
    fix t j assume t: "t < length y" and j: "j < length (?yy ! t)"
    have tn: "t < length ns" using t ns by simp
    have jc: "j < ?cols" using j tn by simp
    have "?yy ! t ! j = ?row (int (ns ! t)) ! j" using tn by simp
    also have "\<dots> = (if ns ! t = j then 1 else 0)"
      using jc by (simp add: nth_list_update)
    also have "\<dots> = (if real j = y ! t then 1 else 0)"
      using tn ns by auto
    finally show "?yy ! t ! j = (if real j = y ! t then 1 else 0)" .
  qed
  have calls: "\<forall>co m x w gammas.
       updateObservations co m y x w gammas =
       obs_loop co x w ?yy gammas [0..<dim_k m]
         (m\<lparr>obj_phi := replicate (dim_n m) (replicate (dim_k m) (replicate (dim_c m) 0))\<rparr>)"
    by (simp add: updateObservations_def oh ebind_def)
  have solver: "\<forall>co co' m x w gammas.
       (\<forall>xx ww h g gp. glm_fit co' xx ww ?yy h g gp = glm_fit co xx ww ?yy h g gp) \<longrightarrow>
       updateObservations co' m y x w gammas = updateObservations co m y x w gammas"
  proof (intro allI impI)
    fix co co' :: collab and m x w gammas
    assume same: "\<forall>xx ww h g gp. glm_fit co' xx ww ?yy h g gp = glm_fit co xx ww ?yy h g gp"
    show "updateObservations co' m y x w gammas = updateObservations co m y x w gammas"
      using calls obs_loop_solver [OF same] by simp
  qed
  have solved: "\<forall>co m x w gammas m'.
       updateObservations co m y x w gammas = Inr m' \<longrightarrow>
       (\<forall>zk < dim_k m. \<exists>w_new phi_new.
          glm_fit co x (w ! zk) ?yy (hessian m) (column gammas zk) (gaussianPrior m) =
            Inr (w_new, phi_new) \<and>
          broadcast_rows (dim_d m) (dim_c m) w_new = Inr (obj_w m' ! zk) \<and>
          broadcast_rows (dim_n m) (dim_c m) phi_new = Inr (map (\<lambda>p. p ! zk) (obj_phi m')))"
  proof (intro allI impI)
    fix co :: collab and m x w gammas m' zk
    assume u: "updateObservations co m y x w gammas = Inr m'" and zk: "zk < dim_k m"
    from updateObservations_calls [OF u zk] oh
    show "\<exists>w_new phi_new.
          glm_fit co x (w ! zk) ?yy (hessian m) (column gammas zk) (gaussianPrior m) =
            Inr (w_new, phi_new) \<and>
          broadcast_rows (dim_d m) (dim_c m) w_new = Inr (obj_w m' ! zk) \<and>
          broadcast_rows (dim_n m) (dim_c m) phi_new = Inr (map (\<lambda>p. p ! zk) (obj_phi m'))"
      by auto
  qed
  have fewer: "\<forall>cc. (\<forall>v \<in> set y. v < real cc \<and> v \<noteq> real cc - 1) \<longrightarrow>
       (\<forall>t < length y. length (?yy ! t) < cc)"
  proof (intro allI impI)
    fix cc t assume below: "\<forall>v \<in> set y. v < real cc \<and> v \<noteq> real cc - 1"
      and t: "t < length y"
    have "real ?mx \<in> set y" using mx_in ns by simp
    with below have "real ?mx < real cc" "real ?mx \<noteq> real cc - 1" by blast+
    then have "?mx < cc" "Suc ?mx \<noteq> cc" by (auto simp: of_nat_diff)
    then have "Suc ?mx < cc" by simp
    then show "length (?yy ! t) < cc" using t ns by simp
  qed
  have len: "length ?yy = length y" using ns by simp
  show ?thesis
    by (intro exI [of _ ?yy] conjI) (fact oh len entries calls solver solved fewer)+
qed

theorem one_hot_columns_witness:
  "[0, 0] \<noteq> ([] :: real list) \<and> set [0, 0 :: real] \<subseteq> \<nat> \<and>
   one_hot [0, 0] = Inr [[1], [1]] \<and>
   updateObservations toy_co2 toy_m [0, 0] toy_x toy_w [[1 / 4], [9 / 16]] =
     Inr (toy_m\<lparr>obj_w := [[[13 / 16, 1]]]\<rparr>) \<and>
   glm_fit toy_co2 toy_x (toy_w ! 0) [[1], [1]] (hessian toy_m)
       (column [[1 / 4], [9 / 16]] 0) (gaussianPrior toy_m) =
     Inr ([[13 / 16, 1]], [[1 / 2, 1 / 2], [1 / 2, 1 / 2]]) \<and>
   (\<exists>yy. one_hot [0, 0] = Inr yy \<and> length yy = length [0, 0 :: real] \<and>
      real (length (yy ! 0)) = Max (set [0, 0]) + 1 \<and>
      (\<forall>t < length [0, 0 :: real]. length (yy ! t) < dim_c toy_m) \<and>
      (\<exists>w_new phi_new.
         glm_fit toy_co2 toy_x (toy_w ! 0) yy (hessian toy_m)
             (column [[1 / 4], [9 / 16]] 0) (gaussianPrior toy_m) = Inr (w_new, phi_new) \<and>
         broadcast_rows (dim_d toy_m) (dim_c toy_m) w_new =
           Inr (obj_w (toy_m\<lparr>obj_w := [[[13 / 16, 1]]]\<rparr>) ! 0)))"
proof -
  have ne: "[0, 0] \<noteq> ([] :: real list)" by simp
  have nat: "set [0, 0 :: real] \<subseteq> \<nat>" by simp
  have fit: "\<forall>v \<in> set [0, 0 :: real]. v < 2 ^ 63 - 1" by simp
  have below: "\<forall>v \<in> set [0, 0 :: real]. v < real (dim_c toy_m) \<and> v \<noteq> real (dim_c toy_m) - 1"
    by (simp add: toy_m_def)
  have val: "one_hot [0, 0] = Inr [[1], [1]]"
    by (simp add: one_hot_def astype_int_def add_int64_def py_int_def set_one_def Let_def)
  have upd: "updateObservations toy_co2 toy_m [0, 0] toy_x toy_w [[1 / 4], [9 / 16]] =
     Inr (toy_m\<lparr>obj_w := [[[13 / 16, 1]]]\<rparr>)"
    by (simp add: updateObservations_def val ebind_def toy_co2_def toy_m_def toy_phi_def
        toy_x_def toy_w_def broadcast_rows_def broadcast_vec_def set_state_def column_def
        numeral_2_eq_2)
  have g: "glm_fit toy_co2 toy_x (toy_w ! 0) [[1], [1]] (hessian toy_m)
       (column [[1 / 4], [9 / 16]] 0) (gaussianPrior toy_m) =
     Inr ([[13 / 16, 1]], [[1 / 2, 1 / 2], [1 / 2, 1 / 2]])"
    by (simp add: toy_co2_def toy_x_def column_def)
  have k: "0 < dim_k toy_m" by (simp add: toy_m_def)
  from one_hot_columns [OF ne nat fit] obtain yy where
    yy: "one_hot [0, 0] = Inr yy" "length yy = length [0, 0 :: real]"
    and cols: "\<forall>t < length [0, 0 :: real].
       real (length (yy ! t)) = Max (set [0, 0]) + 1 \<and>
       (\<forall>j < length (yy ! t). yy ! t ! j = (if real j = [0, 0] ! t then 1 else 0))"
    and solved: "\<forall>co m x w gammas m'.
       updateObservations co m [0, 0] x w gammas = Inr m' \<longrightarrow>
       (\<forall>zk < dim_k m. \<exists>w_new phi_new.
          glm_fit co x (w ! zk) yy (hessian m) (column gammas zk) (gaussianPrior m) =
            Inr (w_new, phi_new) \<and>
          broadcast_rows (dim_d m) (dim_c m) w_new = Inr (obj_w m' ! zk) \<and>
          broadcast_rows (dim_n m) (dim_c m) phi_new = Inr (map (\<lambda>p. p ! zk) (obj_phi m')))"
    and fewer: "\<forall>cc. (\<forall>v \<in> set [0, 0 :: real]. v < real cc \<and> v \<noteq> real cc - 1) \<longrightarrow>
       (\<forall>t < length [0, 0 :: real]. length (yy ! t) < cc)"
    by (elim exE conjE)
  have c0: "real (length (yy ! 0)) = Max (set [0, 0]) + 1" using cols by simp
  have f2: "\<forall>t < length [0, 0 :: real]. length (yy ! t) < dim_c toy_m"
    using fewer below by blast
  from solved upd k have call: "\<exists>w_new phi_new.
         glm_fit toy_co2 toy_x (toy_w ! 0) yy (hessian toy_m)
             (column [[1 / 4], [9 / 16]] 0) (gaussianPrior toy_m) = Inr (w_new, phi_new) \<and>
         broadcast_rows (dim_d toy_m) (dim_c toy_m) w_new =
           Inr (obj_w (toy_m\<lparr>obj_w := [[[13 / 16, 1]]]\<rparr>) ! 0)"
    by blast
  have inner: "\<exists>yy. one_hot [0, 0] = Inr yy \<and> length yy = length [0, 0 :: real] \<and>
      real (length (yy ! 0)) = Max (set [0, 0]) + 1 \<and>
      (\<forall>t < length [0, 0 :: real]. length (yy ! t) < dim_c toy_m) \<and>
      (\<exists>w_new phi_new.
         glm_fit toy_co2 toy_x (toy_w ! 0) yy (hessian toy_m)
             (column [[1 / 4], [9 / 16]] 0) (gaussianPrior toy_m) = Inr (w_new, phi_new) \<and>
         broadcast_rows (dim_d toy_m) (dim_c toy_m) w_new =
           Inr (obj_w (toy_m\<lparr>obj_w := [[[13 / 16, 1]]]\<rparr>) ! 0))"
    using yy c0 f2 call by (intro exI [of _ yy]) simp
  show ?thesis
    by (intro conjI) (fact ne nat val upd g inner)+
qed

end
